theory Spec2Isabelle
  imports Main
begin

section \<open>Data model of the transfer queue\<close>

text \<open>
  The embedding follows \<^verbatim>\<open>Source/WebCore/platform/graphics/android/TransferQueue.cpp\<close>.
  C pointers are natural numbers, \<open>0\<close> being the null pointer, so that the null tests of
  the source read as they are written. The ring \<open>m_transferQueue\<close> is a list, indexed as
  the array is; \<open>m_emptyItemCount\<close> is an \<open>int\<close> because the source decrements it
  without a guard.
\<close>

type_synonym ptr = nat

datatype TransferItemStatus = emptyItem | pendingBlit | pendingDiscard

datatype TextureUploadType = CpuUpload | GpuUpload

text \<open>
  Modelled from the spec: \<open>IntRect\<close>, \<open>SkIRect\<close> and \<open>SkBitmap\<close> are types of WebCore
  and Skia whose declarations are not among the sources. Only what TransferQueue.cpp
  reads of them is kept: the four coordinates, \<open>isEmpty\<close> (an empty dirty region
  means a full update), the width and height of an \<open>SkIRect\<close>, and a bitmap as a
  value that \<open>copyTo\<close> duplicates.
\<close>

datatype IntRect = IntRect (rect_x: int) (rect_y: int) (rect_width: int) (rect_height: int)

definition isEmpty :: "IntRect \<Rightarrow> bool" where
  "isEmpty r = (rect_width r \<le> 0 \<or> rect_height r \<le> 0)"

datatype SkIRect = SkIRect (fLeft: int) (fTop: int) (fRight: int) (fBottom: int)

text \<open>
  The coordinates are 32-bit signed integers; \<open>width()\<close> and \<open>height()\<close> subtract
  them in that type, so the difference wraps around.
\<close>

definition wrap32 :: "int \<Rightarrow> int" where
  "wrap32 x = (x + 2147483648) mod 4294967296 - 2147483648"

definition irect_width :: "SkIRect \<Rightarrow> int" where
  "irect_width r = wrap32 (fRight r - fLeft r)"

definition irect_height :: "SkIRect \<Rightarrow> int" where
  "irect_height r = wrap32 (fBottom r - fTop r)"

datatype SkBitmap = SkBitmap (bm_config: nat) (bm_width: int) (bm_height: int) (bm_pixels: "nat list")

text \<open>
  Modelled from the spec: \<open>TileTransferData\<close> (the transfer slot of spec section 3) and
  \<open>TileRenderInfo\<close> are declared in TransferQueue.h and TilesManager headers, which are
  not among the sources. The fields are those TransferQueue.cpp reads and writes;
  \<open>bitmap\<close> is the lazily allocated payload (\<open>None\<close> is the null pointer), and the
  optional \<open>ri_invalRect\<close> is the nullable pointer \<open>renderInfo->invalRect\<close>.
\<close>

record TileTransferData =
  status :: TransferItemStatus
  savedTilePtr :: ptr
  savedTileTexturePtr :: ptr
  uploadType :: TextureUploadType
  bitmap :: "SkBitmap option"
  invalRect :: IntRect
  pureColor :: nat

record TileRenderInfo =
  baseTile :: ptr
  ri_invalRect :: "SkIRect option"
  ri_pureColor :: nat

datatype GLcap = GL_SCISSOR_TEST | GL_DEPTH_TEST

record GLState =
  viewport :: "int \<times> int \<times> int \<times> int"
  scissor :: bool
  depth :: bool

section \<open>External collaborators\<close>

text \<open>
  Tiles, tile textures, the shared surface texture, the native window, the condition
  variable and OpenGL are not part of TransferQueue.cpp. Every call the source makes
  into them is a value of \<open>ext_call\<close>.
\<close>

datatype ext_call =
    CondSignal
  | CondWait
  | UpdateTexImage
  | DiscardBackTexture ptr
  | BackTextureTransferFail ptr
  | SetPureColor ptr nat
  | TransferComplete ptr
  | RequireGLTexture ptr
  | SetPure ptr bool
  | UpdateTextureWithBitmap nat "SkBitmap option" IntRect
  | UpdateSharedSurfaceTextureWithBitmap SkBitmap
  | GlBindFramebuffer nat
  | GlBindTexture nat
  | GlFramebufferTexture2D nat
  | GlCopyTexSubImage2D int int int int int int
  | GlGetViewport
  | GlGetBoolean GLcap
  | GlViewport int int int int
  | GlEnable GLcap
  | CheckGlError

text \<open>
  Three pointers are dereferenced by the source without a null test:
  \<open>m_sharedSurfaceTexture\<close> in the two loops that call \<open>updateTexImage\<close>,
  \<open>renderInfo->baseTile\<close> in \<open>addItemCommon\<close>, and the slot's \<open>bitmap\<close> in the
  direct upload. The model takes the shared surface to exist whenever a \<open>GpuUpload\<close>
  slot is resolved (such a slot is only enqueued after the native window was found
  non-null), passes the bitmap pointer on to the call as it is, and leaves the back
  texture of a null tile to the collaborators' query. Every public method holds
  \<open>m_transferQueueItemLocks\<close> from entry to exit, so each is one atomic step; the only
  place where the lock is given up is the wait in \<open>readyForUpdate\<close>.
\<close>

text \<open>
  The collaborators' state is a value of an arbitrary type \<open>'w\<close>. What the source reads
  from it are the queries of the record \<open>env\<close>: \<open>Tile::backTexture\<close>,
  \<open>Tile::frontTexture\<close>, \<open>TileTexture::owner\<close>, \<open>TileTexture::m_ownTextureId\<close>,
  \<open>TileTexture::getSize\<close>, the GL state read by \<open>saveGLState\<close>, and the boolean
  that \<open>GLUtils::updateSharedSurfaceTextureWithBitmap\<close> returns. How a call changes the
  collaborators is the parameter \<open>effect\<close>; nothing is assumed about it.
\<close>

record 'w env =
  tile_backTexture :: "'w \<Rightarrow> ptr \<Rightarrow> ptr"
  tile_frontTexture :: "'w \<Rightarrow> ptr \<Rightarrow> ptr"
  texture_owner :: "'w \<Rightarrow> ptr \<Rightarrow> ptr"
  texture_ownTextureId :: "'w \<Rightarrow> ptr \<Rightarrow> nat"
  texture_getSize :: "'w \<Rightarrow> ptr \<Rightarrow> int \<times> int"
  gl_state :: "'w \<Rightarrow> GLState"
  shared_write_ok :: "'w \<Rightarrow> SkBitmap \<Rightarrow> bool"
  effect :: "ext_call \<Rightarrow> 'w \<Rightarrow> 'w"

text \<open>
  The queue object. \<open>m_ANW\<close> tells whether the native-window handle is non-null.
  \<open>world\<close> is the collaborators' state and \<open>calls\<close> the history of the calls made
  into them, each with the ring as it was when the call was made.
\<close>

record 'w TransferQueue =
  m_transferQueue :: "TileTransferData list"
  m_transferQueueSize :: nat
  m_transferQueueIndex :: nat
  m_emptyItemCount :: int
  m_pureColorTileQueue :: "TileTransferData list"
  m_hasGLContext :: bool
  m_interruptedByRemovingOp :: bool
  m_currentUploadType :: TextureUploadType
  m_ANW :: bool
  m_fboID :: nat
  m_sharedSurfaceTextureId :: nat
  m_GLStateBeforeBlit :: GLState
  world :: 'w
  calls :: "(ext_call \<times> TileTransferData list) list"

definition call :: "'w env \<Rightarrow> ext_call \<Rightarrow> 'w TransferQueue \<Rightarrow> 'w TransferQueue" where
  "call env c st =
     st\<lparr>world := effect env c (world st),
        calls := calls st @ [(c, m_transferQueue st)]\<rparr>"

definition events :: "'w TransferQueue \<Rightarrow> ext_call list" where
  "events st = map fst (calls st)"

section \<open>Construction\<close>

definition MINIMAL_SIZE :: nat where
  "MINIMAL_SIZE = 1"

definition EFFICIENT_SIZE :: nat where
  "EFFICIENT_SIZE = 6"

text \<open>
  Modelled from the spec: the default constructor of \<open>TileTransferData\<close> and the macro
  \<open>DEFAULT_UPLOAD_TYPE\<close> are in TransferQueue.h, not among the sources. A fresh slot is
  Empty with null references (spec section 3); the default upload type is the
  parameter \<open>dflt\<close>.
\<close>

definition TileTransferData_init :: "TextureUploadType \<Rightarrow> TileTransferData" where
  "TileTransferData_init dflt =
     \<lparr>status = emptyItem, savedTilePtr = 0, savedTileTexturePtr = 0, uploadType = dflt,
      bitmap = None, invalRect = IntRect 0 0 0 0, pureColor = 0\<rparr>"

definition TransferQueue_init :: "TextureUploadType \<Rightarrow> 'w \<Rightarrow> bool \<Rightarrow> 'w TransferQueue" where
  "TransferQueue_init dflt w useMinimalMem =
     (let n = (if useMinimalMem then MINIMAL_SIZE else EFFICIENT_SIZE) in
      \<lparr>m_transferQueue = replicate n (TileTransferData_init dflt),
       m_transferQueueSize = n,
       m_transferQueueIndex = 0,
       m_emptyItemCount = int n,
       m_pureColorTileQueue = [],
       m_hasGLContext = True,
       m_interruptedByRemovingOp = False,
       m_currentUploadType = dflt,
       m_ANW = False,
       m_fboID = 0,
       m_sharedSurfaceTextureId = 0,
       m_GLStateBeforeBlit = \<lparr>viewport = (0, 0, 0, 0), scissor = False, depth = False\<rparr>,
       world = w,
       calls = []\<rparr>)"

section \<open>Operations\<close>

subsection \<open>checkObsolete\<close>

definition checkObsolete :: "'w env \<Rightarrow> 'w \<Rightarrow> TileTransferData \<Rightarrow> bool" where
  "checkObsolete env w data =
     (let baseTilePtr = savedTilePtr data in
      if baseTilePtr = 0 then True
      else
        (let baseTileTexture = tile_backTexture env w baseTilePtr in
         if baseTileTexture = 0 \<or> baseTileTexture \<noteq> savedTileTexturePtr data then True
         else False))"

subsection \<open>Indices, flags, interruption\<close>

definition getNextTransferQueueIndex :: "'w TransferQueue \<Rightarrow> nat" where
  "getNextTransferQueueIndex st = (m_transferQueueIndex st + 1) mod m_transferQueueSize st"

definition getHasGLContext :: "'w TransferQueue \<Rightarrow> bool" where
  "getHasGLContext st = m_hasGLContext st"

definition setHasGLContext :: "bool \<Rightarrow> 'w TransferQueue \<Rightarrow> 'w TransferQueue" where
  "setHasGLContext hasContext st = st\<lparr>m_hasGLContext := hasContext\<rparr>"

definition interruptTransferQueue :: "'w env \<Rightarrow> bool \<Rightarrow> 'w TransferQueue \<Rightarrow> 'w TransferQueue" where
  "interruptTransferQueue env interrupt st =
     (let st1 = st\<lparr>m_interruptedByRemovingOp := interrupt\<rparr> in
      if m_interruptedByRemovingOp st1 then call env CondSignal st1 else st1)"

subsection \<open>readyForUpdate\<close>

text \<open>
  \<open>m_transferQueueItemCond.wait\<close> releases the lock and blocks the producer. The
  parameter \<open>others\<close> is what the other threads do to the queue until the producer
  holds the lock again; it is \<open>None\<close> when the producer is never woken, and then the
  call does not return.
\<close>

definition readyForUpdate_afterWait :: "'w TransferQueue \<Rightarrow> (bool \<times> 'w TransferQueue) option" where
  "readyForUpdate_afterWait st =
     (if \<not> getHasGLContext st then Some (False, st) else Some (True, st))"

definition readyForUpdate ::
  "'w env \<Rightarrow> ('w TransferQueue \<Rightarrow> 'w TransferQueue option) \<Rightarrow> 'w TransferQueue
     \<Rightarrow> (bool \<times> 'w TransferQueue) option" where
  "readyForUpdate env others st =
     (if \<not> getHasGLContext st then Some (False, st)
      else if m_emptyItemCount st = 0 then
        (if m_interruptedByRemovingOp st then Some (False, st)
         else
           (case others (call env CondWait st) of
              None \<Rightarrow> None
            | Some st1 \<Rightarrow>
                if m_interruptedByRemovingOp st1 then Some (False, st1)
                else readyForUpdate_afterWait st1))
      else readyForUpdate_afterWait st)"

subsection \<open>setPendingDiscard and setTextureUploadType\<close>

definition setPendingDiscard_slot :: "TileTransferData list \<Rightarrow> nat \<Rightarrow> TileTransferData list" where
  "setPendingDiscard_slot q i =
     (if status (q ! i) = pendingBlit then q[i := (q ! i)\<lparr>status := pendingDiscard\<rparr>] else q)"

definition setPendingDiscard :: "'w env \<Rightarrow> 'w TransferQueue \<Rightarrow> 'w TransferQueue" where
  "setPendingDiscard env st =
     (let st1 = st\<lparr>m_transferQueue :=
                   foldl setPendingDiscard_slot (m_transferQueue st) [0..<m_transferQueueSize st]\<rparr>;
          st2 = st1\<lparr>m_pureColorTileQueue := []\<rparr>;
          GLContextExisted = getHasGLContext st2;
          st3 = setHasGLContext False st2
      in if GLContextExisted then call env CondSignal st3 else st3)"

definition setTextureUploadType ::
  "'w env \<Rightarrow> TextureUploadType \<Rightarrow> 'w TransferQueue \<Rightarrow> 'w TransferQueue" where
  "setTextureUploadType env type st =
     (if m_currentUploadType st = type then st
      else (setPendingDiscard env st)\<lparr>m_currentUploadType := type\<rparr>)"

subsection \<open>cleanupPendingDiscard\<close>

definition cleanupPendingDiscard_body :: "'w env \<Rightarrow> nat \<Rightarrow> 'w TransferQueue \<Rightarrow> 'w TransferQueue" where
  "cleanupPendingDiscard_body env index st =
     (if status (m_transferQueue st ! index) = pendingDiscard then
        (let st1 = (if uploadType (m_transferQueue st ! index) = GpuUpload
                    then call env UpdateTexImage st else st);
             tile = savedTilePtr (m_transferQueue st1 ! index);
             texture = savedTileTexturePtr (m_transferQueue st1 ! index);
             st2 = (if tile \<noteq> 0 \<and> texture \<noteq> 0 \<and> texture_owner env (world st1) texture = tile
                    then call env (DiscardBackTexture tile) st1 else st1)
         in st2\<lparr>m_transferQueue := (m_transferQueue st2)
                  [index := (m_transferQueue st2 ! index)
                     \<lparr>savedTilePtr := 0, savedTileTexturePtr := 0, status := emptyItem\<rparr>]\<rparr>)
      else st)"

fun cleanupPendingDiscard_loop ::
  "'w env \<Rightarrow> nat \<Rightarrow> nat \<Rightarrow> 'w TransferQueue \<Rightarrow> 'w TransferQueue" where
  "cleanupPendingDiscard_loop env 0 index st = st"
| "cleanupPendingDiscard_loop env (Suc n) index st =
     cleanupPendingDiscard_loop env n ((index + 1) mod m_transferQueueSize st)
       (cleanupPendingDiscard_body env index st)"

definition cleanupPendingDiscard :: "'w env \<Rightarrow> 'w TransferQueue \<Rightarrow> 'w TransferQueue" where
  "cleanupPendingDiscard env st =
     cleanupPendingDiscard_loop env (m_transferQueueSize st) (getNextTransferQueueIndex st) st"

subsection \<open>updatePureColorTiles\<close>

definition updatePureColorTiles_body :: "'w env \<Rightarrow> 'w TransferQueue \<Rightarrow> TileTransferData \<Rightarrow> 'w TransferQueue" where
  "updatePureColorTiles_body env st data =
     (if status data = pendingBlit then
        (let obsoleteTile = checkObsolete env (world st) data in
         if \<not> obsoleteTile then
           (let destTexture = tile_backTexture env (world st) (savedTilePtr data);
                st1 = call env (SetPureColor destTexture (pureColor data)) st
            in call env (TransferComplete destTexture) st1)
         else st)
      else st)"

definition updatePureColorTiles :: "'w env \<Rightarrow> 'w TransferQueue \<Rightarrow> 'w TransferQueue" where
  "updatePureColorTiles env st =
     (foldl (updatePureColorTiles_body env) st (m_pureColorTileQueue st))
       \<lparr>m_pureColorTileQueue := []\<rparr>"

subsection \<open>GL state and the blit\<close>

definition saveGLState :: "'w env \<Rightarrow> 'w TransferQueue \<Rightarrow> 'w TransferQueue" where
  "saveGLState env st =
     (let st1 = (call env GlGetViewport st)
                  \<lparr>m_GLStateBeforeBlit := (m_GLStateBeforeBlit st)
                      \<lparr>viewport := viewport (gl_state env (world st))\<rparr>\<rparr>;
          st2 = (call env (GlGetBoolean GL_SCISSOR_TEST) st1)
                  \<lparr>m_GLStateBeforeBlit := (m_GLStateBeforeBlit st1)
                      \<lparr>scissor := scissor (gl_state env (world st1))\<rparr>\<rparr>
      in (call env (GlGetBoolean GL_DEPTH_TEST) st2)
           \<lparr>m_GLStateBeforeBlit := (m_GLStateBeforeBlit st2)
               \<lparr>depth := depth (gl_state env (world st2))\<rparr>\<rparr>)"

definition restoreGLState :: "'w env \<Rightarrow> 'w TransferQueue \<Rightarrow> 'w TransferQueue" where
  "restoreGLState env st =
     (let saved = m_GLStateBeforeBlit st;
          st1 = (case viewport saved of (a, b, c, d) \<Rightarrow> call env (GlViewport a b c d) st);
          st2 = (if scissor saved then call env (GlEnable GL_SCISSOR_TEST) st1 else st1)
      in if depth saved then call env (GlEnable GL_DEPTH_TEST) st2 else st2)"

text \<open>
  \<open>blitTileFromQueue\<close> as compiled with \<open>GPU_UPLOAD_WITHOUT_DRAW\<close> set to 1; the
  argument \<open>srcTexTarget\<close> is unused on that path and left out.
\<close>

definition blitTileFromQueue ::
  "'w env \<Rightarrow> nat \<Rightarrow> ptr \<Rightarrow> ptr \<Rightarrow> nat \<Rightarrow> nat \<Rightarrow> 'w TransferQueue \<Rightarrow> 'w TransferQueue" where
  "blitTileFromQueue env fboID destTex frontTex srcTexId index st =
     (let st1 = call env (GlBindFramebuffer fboID) st;
          st2 = call env (GlBindTexture (texture_ownTextureId env (world st1) destTex)) st1;
          textureWidth = fst (texture_getSize env (world st2) destTex);
          textureHeight = snd (texture_getSize env (world st2) destTex);
          inval = invalRect (m_transferQueue st2 ! index);
          partialInval = (\<not> isEmpty inval);
          st3 = (if partialInval \<and> frontTex \<noteq> 0 then
                   call env (GlCopyTexSubImage2D 0 0 0 0 textureWidth textureHeight)
                     (call env (GlFramebufferTexture2D (texture_ownTextureId env (world st2) frontTex)) st2)
                 else st2);
          st4 = call env (GlFramebufferTexture2D srcTexId) st3
      in if \<not> partialInval then
           call env (GlCopyTexSubImage2D 0 0 0 0 textureWidth textureHeight) st4
         else
           call env (GlCopyTexSubImage2D (rect_x inval) (rect_y inval) 0 0
                       (rect_width inval) (rect_height inval)) st4)"

subsection \<open>updateDirtyTiles\<close>

text \<open>
  The body of the ring walk for one index. The local \<open>usedFboForUpload\<close> is threaded
  through the loop beside the queue.
\<close>

definition updateDirtyTiles_body ::
  "'w env \<Rightarrow> nat \<Rightarrow> bool \<times> 'w TransferQueue \<Rightarrow> bool \<times> 'w TransferQueue" where
  "updateDirtyTiles_body env index acc =
     (case acc of (usedFboForUpload, st) \<Rightarrow>
      if status (m_transferQueue st ! index) = pendingBlit then
        (let obsoleteTile = checkObsolete env (world st) (m_transferQueue st ! index);
             destTexture = (if \<not> obsoleteTile
                            then tile_backTexture env (world st) (savedTilePtr (m_transferQueue st ! index))
                            else 0);
             frontTexture = (if \<not> obsoleteTile
                             then tile_frontTexture env (world st) (savedTilePtr (m_transferQueue st ! index))
                             else 0);
             st1 = (if uploadType (m_transferQueue st ! index) = GpuUpload
                    then call env UpdateTexImage st else st);
             st2 = st1\<lparr>m_transferQueue := (m_transferQueue st1)
                          [index := (m_transferQueue st1 ! index)
                             \<lparr>savedTilePtr := 0, status := emptyItem\<rparr>]\<rparr>
         in if obsoleteTile then (usedFboForUpload, st2)
            else
              (let st3 = call env (RequireGLTexture destTexture) st2;
                   res = (if uploadType (m_transferQueue st3 ! index) = CpuUpload then
                            (usedFboForUpload,
                             call env (UpdateTextureWithBitmap
                                         (texture_ownTextureId env (world st3) destTexture)
                                         (bitmap (m_transferQueue st3 ! index))
                                         (invalRect (m_transferQueue st3 ! index))) st3)
                          else
                            (True,
                             blitTileFromQueue env (m_fboID st3) destTexture frontTexture
                               (m_sharedSurfaceTextureId st3) index
                               (if \<not> usedFboForUpload then saveGLState env st3 else st3)));
                   st5 = call env (SetPure destTexture False) (snd res)
               in (fst res, call env (TransferComplete destTexture) st5)))
      else (usedFboForUpload, st))"

fun updateDirtyTiles_loop ::
  "'w env \<Rightarrow> nat \<Rightarrow> nat \<Rightarrow> bool \<times> 'w TransferQueue \<Rightarrow> bool \<times> 'w TransferQueue" where
  "updateDirtyTiles_loop env 0 index acc = acc"
| "updateDirtyTiles_loop env (Suc n) index acc =
     updateDirtyTiles_loop env n ((index + 1) mod m_transferQueueSize (snd acc))
       (updateDirtyTiles_body env index acc)"

definition updateDirtyTiles_finish :: "'w env \<Rightarrow> bool \<times> 'w TransferQueue \<Rightarrow> 'w TransferQueue" where
  "updateDirtyTiles_finish env acc =
     (case acc of (usedFboForUpload, st) \<Rightarrow>
      (let st1 = (if usedFboForUpload
                  then call env CheckGlError (restoreGLState env (call env (GlBindFramebuffer 0) st))
                  else st);
           st2 = st1\<lparr>m_emptyItemCount := int (m_transferQueueSize st1)\<rparr>
       in call env CondSignal st2))"

definition updateDirtyTiles :: "'w env \<Rightarrow> 'w TransferQueue \<Rightarrow> 'w TransferQueue" where
  "updateDirtyTiles env st =
     (let st1 = cleanupPendingDiscard env st;
          st2 = (if \<not> getHasGLContext st1 then setHasGLContext True st1 else st1);
          st3 = updatePureColorTiles env st2;
          nextItemIndex = getNextTransferQueueIndex st3
      in updateDirtyTiles_finish env
           (updateDirtyTiles_loop env (m_transferQueueSize st3) nextItemIndex (False, st3)))"

subsection \<open>Enqueue path\<close>

definition addItemCommon ::
  "'w env \<Rightarrow> 'w \<Rightarrow> TileRenderInfo \<Rightarrow> TextureUploadType \<Rightarrow> TileTransferData \<Rightarrow> TileTransferData" where
  "addItemCommon env w renderInfo type data =
     data\<lparr>savedTileTexturePtr := tile_backTexture env w (baseTile renderInfo),
          savedTilePtr := baseTile renderInfo,
          status := pendingBlit,
          uploadType := type,
          invalRect := (case ri_invalRect renderInfo of
                          None \<Rightarrow> IntRect 0 0 0 0
                        | Some r \<Rightarrow> IntRect (fLeft r) (fTop r) (irect_width r) (irect_height r))\<rparr>"

definition addItemInTransferQueue ::
  "'w env \<Rightarrow> TileRenderInfo \<Rightarrow> TextureUploadType \<Rightarrow> SkBitmap option \<Rightarrow> 'w TransferQueue
     \<Rightarrow> 'w TransferQueue" where
  "addItemInTransferQueue env renderInfo type bm st =
     (let st1 = st\<lparr>m_transferQueueIndex := (m_transferQueueIndex st + 1) mod m_transferQueueSize st\<rparr>;
          index = m_transferQueueIndex st1;
          data = addItemCommon env (world st1) renderInfo type (m_transferQueue st1 ! index);
          data1 = (if type = CpuUpload \<and> bm \<noteq> None then data\<lparr>bitmap := bm\<rparr> else data);
          st2 = st1\<lparr>m_transferQueue := (m_transferQueue st1)[index := data1]\<rparr>
      in st2\<lparr>m_emptyItemCount := m_emptyItemCount st2 - 1\<rparr>)"

definition addItemInPureColorQueue ::
  "'w env \<Rightarrow> TextureUploadType \<Rightarrow> TileRenderInfo \<Rightarrow> 'w TransferQueue \<Rightarrow> 'w TransferQueue" where
  "addItemInPureColorQueue env dflt renderInfo st =
     (let data = addItemCommon env (world st) renderInfo GpuUpload (TileTransferData_init dflt);
          data1 = data\<lparr>pureColor := ri_pureColor renderInfo\<rparr>
      in st\<lparr>m_pureColorTileQueue := m_pureColorTileQueue st @ [data1]\<rparr>)"

definition tryUpdateQueueWithBitmap ::
  "'w env \<Rightarrow> ('w TransferQueue \<Rightarrow> 'w TransferQueue option) \<Rightarrow> TileRenderInfo \<Rightarrow> SkBitmap
     \<Rightarrow> 'w TransferQueue \<Rightarrow> (bool \<times> 'w TransferQueue) option" where
  "tryUpdateQueueWithBitmap env others renderInfo bm st =
     (case readyForUpdate env others st of
        None \<Rightarrow> None
      | Some (ready, st1) \<Rightarrow>
          (let currentUploadType = m_currentUploadType st1 in
           if \<not> ready then Some (False, st1)
           else if currentUploadType = GpuUpload then
             (if \<not> m_ANW st1 then Some (False, st1)
              else
                (let ok = shared_write_ok env (world st1) bm;
                     st2 = call env (UpdateSharedSurfaceTextureWithBitmap bm) st1
                 in if \<not> ok then Some (False, st2)
                    else Some (True, addItemInTransferQueue env renderInfo currentUploadType (Some bm) st2)))
           else Some (True, addItemInTransferQueue env renderInfo currentUploadType (Some bm) st1)))"

definition updateQueueWithBitmap ::
  "'w env \<Rightarrow> ('w TransferQueue \<Rightarrow> 'w TransferQueue option) \<Rightarrow> TileRenderInfo \<Rightarrow> SkBitmap
     \<Rightarrow> 'w TransferQueue \<Rightarrow> 'w TransferQueue option" where
  "updateQueueWithBitmap env others renderInfo bm st =
     (case tryUpdateQueueWithBitmap env others renderInfo bm st of
        None \<Rightarrow> None
      | Some (ok, st1) \<Rightarrow>
          if \<not> ok then
            (let tile = baseTile renderInfo in
             if tile \<noteq> 0 then Some (call env (BackTextureTransferFail tile) st1) else Some st1)
          else Some st1)"

section \<open>Concrete collaborators for the worked examples\<close>

text \<open>
  A collaborator state that no call changes: \<open>back\<close> gives every tile its back
  texture, \<open>owner\<close> every texture its owning tile, \<open>ok\<close> is the result of every write
  into the shared surface. Front textures are null, the id of a texture is its address.
\<close>

definition static_env :: "(ptr \<Rightarrow> ptr) \<Rightarrow> (ptr \<Rightarrow> ptr) \<Rightarrow> bool \<Rightarrow> unit env" where
  "static_env back owner ok =
     \<lparr>tile_backTexture = (\<lambda>w. back),
      tile_frontTexture = (\<lambda>w t. 0),
      texture_owner = (\<lambda>w. owner),
      texture_ownTextureId = (\<lambda>w t. t),
      texture_getSize = (\<lambda>w t. (256, 256)),
      gl_state = (\<lambda>w. \<lparr>viewport = (0, 0, 0, 0), scissor = False, depth = False\<rparr>),
      shared_write_ok = (\<lambda>w b. ok),
      effect = (\<lambda>c w. w)\<rparr>"

text \<open>Tile \<open>t\<close> has back texture \<open>t + 100\<close>, which it owns; writes succeed.\<close>

definition demo_env :: "unit env" where
  "demo_env = static_env (\<lambda>t. t + 100) (\<lambda>x. x - 100) True"

definition demo_info :: "ptr \<Rightarrow> TileRenderInfo" where
  "demo_info t = \<lparr>baseTile = t, ri_invalRect = None, ri_pureColor = 7\<rparr>"

definition demo_bitmap :: SkBitmap where
  "demo_bitmap = SkBitmap 0 1 1 [0]"

text \<open>A freshly constructed queue of capacity one.\<close>

definition fresh1 :: "TextureUploadType \<Rightarrow> unit TransferQueue" where
  "fresh1 dflt = TransferQueue_init dflt () True"

text \<open>
  A slot for tile \<open>t\<close> as \<open>addItemCommon\<close> leaves it under \<open>demo_env\<close>, with a given
  status and upload type, and a queue object around a given ring and write index.
\<close>

definition demo_slot :: "TransferItemStatus \<Rightarrow> TextureUploadType \<Rightarrow> ptr \<Rightarrow> TileTransferData" where
  "demo_slot s u t =
     \<lparr>status = s, savedTilePtr = t, savedTileTexturePtr = t + 100, uploadType = u,
      bitmap = (if u = CpuUpload then Some demo_bitmap else None),
      invalRect = IntRect 0 0 0 0, pureColor = 0\<rparr>"

definition demo_queue :: "TileTransferData list \<Rightarrow> nat \<Rightarrow> TileTransferData list \<Rightarrow> unit TransferQueue" where
  "demo_queue q idx side =
     \<lparr>m_transferQueue = q,
      m_transferQueueSize = length q,
      m_transferQueueIndex = idx,
      m_emptyItemCount = int (length (filter (\<lambda>d. status d = emptyItem) q)),
      m_pureColorTileQueue = side,
      m_hasGLContext = True,
      m_interruptedByRemovingOp = False,
      m_currentUploadType = GpuUpload,
      m_ANW = True,
      m_fboID = 1,
      m_sharedSurfaceTextureId = 2,
      m_GLStateBeforeBlit = \<lparr>viewport = (0, 0, 0, 0), scissor = False, depth = False\<rparr>,
      world = (),
      calls = []\<rparr>"

section \<open>Auxiliary notions used in the statements\<close>

text \<open>
  A queue is well formed when its capacity is positive and the ring has exactly that
  many slots, as the constructor establishes and every operation keeps.
\<close>

definition wellFormed :: "'w TransferQueue \<Rightarrow> bool" where
  "wellFormed st = (0 < m_transferQueueSize st \<and> length (m_transferQueue st) = m_transferQueueSize st)"

text \<open>What \<open>setPendingDiscard\<close>, \<open>cleanupPendingDiscard\<close> and the ring walk of
  \<open>updateDirtyTiles\<close> do to the fields of one slot.\<close>

definition discardStatus :: "TileTransferData \<Rightarrow> TileTransferData" where
  "discardStatus d = (if status d = pendingBlit then d\<lparr>status := pendingDiscard\<rparr> else d)"

definition discardClear :: "TileTransferData \<Rightarrow> TileTransferData" where
  "discardClear d =
     (if status d = pendingDiscard
      then d\<lparr>savedTilePtr := 0, savedTileTexturePtr := 0, status := emptyItem\<rparr> else d)"

definition uploadClear :: "TileTransferData \<Rightarrow> TileTransferData" where
  "uploadClear d =
     (if status d = pendingBlit then d\<lparr>savedTilePtr := 0, status := emptyItem\<rparr> else d)"

text \<open>The indices a loop that starts at \<open>start\<close> and steps by one modulo \<open>N\<close> visits in
  its first \<open>n\<close> iterations.\<close>

definition ringOrder :: "nat \<Rightarrow> nat \<Rightarrow> nat \<Rightarrow> nat list" where
  "ringOrder N start n = map (\<lambda>k. (start + k) mod N) [0..<n]"

text \<open>The number of \<open>updateTexImage\<close> calls made so far.\<close>

definition texImageCount :: "'w TransferQueue \<Rightarrow> nat" where
  "texImageCount st = count_list (events st) UpdateTexImage"

text \<open>
  The state of a drain cycle when the ring walk starts (after discard resolution, the
  context flag and the side queue), and the ring walk itself.
\<close>

definition beforeWalk :: "'w env \<Rightarrow> 'w TransferQueue \<Rightarrow> 'w TransferQueue" where
  "beforeWalk env st =
     updatePureColorTiles env
       (if \<not> getHasGLContext (cleanupPendingDiscard env st)
        then setHasGLContext True (cleanupPendingDiscard env st) else cleanupPendingDiscard env st)"

definition ringWalk :: "'w env \<Rightarrow> 'w TransferQueue \<Rightarrow> bool \<times> 'w TransferQueue" where
  "ringWalk env st =
     updateDirtyTiles_loop env (m_transferQueueSize st) (getNextTransferQueueIndex st) (False, st)"

text \<open>
  What the consumer and another producer may do while a producer waits in
  \<open>readyForUpdate\<close>: a drain cycle, then an enqueue by the other producer, who finds a
  free slot and does not wait.
\<close>

definition drainThenEnqueue :: "unit TransferQueue \<Rightarrow> unit TransferQueue option" where
  "drainThenEnqueue st =
     map_option snd
       (tryUpdateQueueWithBitmap demo_env (\<lambda>s. None) (demo_info 2) demo_bitmap
          (updateDirtyTiles demo_env st))"

text \<open>The three cases in which \<open>tryUpdateQueueWithBitmap\<close> does not enqueue.\<close>

definition enqueueDenied :: "'w env \<Rightarrow> bool \<Rightarrow> SkBitmap \<Rightarrow> 'w TransferQueue \<Rightarrow> bool" where
  "enqueueDenied env ready bm st1 =
     (\<not> ready \<or> (m_currentUploadType st1 = GpuUpload
                  \<and> (\<not> m_ANW st1 \<or> \<not> shared_write_ok env (world st1) bm)))"

text \<open>
  The GPU writes of the ring walk: materialising the destination texture, the direct
  bitmap upload, and the GL calls of the blit. \<open>newCalls st st'\<close> are the calls made
  between the states \<open>st\<close> and \<open>st'\<close>, each with the ring as it was at the call.
\<close>

fun gpuWrite :: "ext_call \<Rightarrow> bool" where
  "gpuWrite (RequireGLTexture t) = True"
| "gpuWrite (UpdateTextureWithBitmap i b r) = True"
| "gpuWrite (GlBindFramebuffer f) = True"
| "gpuWrite (GlBindTexture t) = True"
| "gpuWrite (GlFramebufferTexture2D t) = True"
| "gpuWrite (GlCopyTexSubImage2D a b c d e f) = True"
| "gpuWrite c = False"

definition newCalls :: "'w TransferQueue \<Rightarrow> 'w TransferQueue \<Rightarrow> (ext_call \<times> TileTransferData list) list" where
  "newCalls st st' = drop (length (calls st)) (calls st')"

text \<open>
  Calls by kind: \<open>setPureColor\<close> is made for side-queue entries only; the side queue
  makes no other call than \<open>setPureColor\<close> and \<open>transferComplete\<close>; the calls of
  \<open>ringSlotCall\<close> are made for ring slots only. A history is \<open>sideFirst\<close> when no call
  for a ring slot comes before a \<open>setPureColor\<close>.
\<close>

fun isSetPureColor :: "ext_call \<Rightarrow> bool" where
  "isSetPureColor (SetPureColor t c) = True"
| "isSetPureColor c = False"

fun sideQueueCall :: "ext_call \<Rightarrow> bool" where
  "sideQueueCall (SetPureColor t c) = True"
| "sideQueueCall (TransferComplete t) = True"
| "sideQueueCall c = False"

fun ringSlotCall :: "ext_call \<Rightarrow> bool" where
  "ringSlotCall UpdateTexImage = True"
| "ringSlotCall (DiscardBackTexture t) = True"
| "ringSlotCall (SetPure t b) = True"
| "ringSlotCall c = gpuWrite c"

fun sideFirst :: "ext_call list \<Rightarrow> bool" where
  "sideFirst [] = True"
| "sideFirst (c # cs) = ((ringSlotCall c \<longrightarrow> (\<forall>x \<in> set cs. \<not> isSetPureColor x)) \<and> sideFirst cs)"

text \<open>
  \<open>extends P st st'\<close>: the history of \<open>st'\<close> is that of \<open>st\<close> followed by calls that
  all satisfy \<open>P\<close>.
\<close>

definition extends :: "(ext_call \<Rightarrow> bool) \<Rightarrow> 'w TransferQueue \<Rightarrow> 'w TransferQueue \<Rightarrow> bool" where
  "extends P st st' =
     (take (length (events st)) (events st') = events st
      \<and> (\<forall>c \<in> set (drop (length (events st)) (events st')). P c))"

text \<open>
  Sequences of queue operations: the enqueue \<open>addItemInTransferQueue\<close>, the drain
  \<open>updateDirtyTiles\<close>, \<open>setPendingDiscard\<close>, and \<open>cleanupPendingDiscard\<close> run on its own
  (as \<open>emptyQueue\<close> runs it).
\<close>

datatype queue_op =
    Enqueue TileRenderInfo TextureUploadType "SkBitmap option"
  | Drain
  | SetPendingDiscard
  | CleanupPendingDiscard

fun apply_op :: "'w env \<Rightarrow> queue_op \<Rightarrow> 'w TransferQueue \<Rightarrow> 'w TransferQueue" where
  "apply_op env (Enqueue renderInfo type bm) st = addItemInTransferQueue env renderInfo type bm st"
| "apply_op env Drain st = updateDirtyTiles env st"
| "apply_op env SetPendingDiscard st = setPendingDiscard env st"
| "apply_op env CleanupPendingDiscard st = cleanupPendingDiscard env st"

definition run :: "'w env \<Rightarrow> queue_op list \<Rightarrow> 'w TransferQueue \<Rightarrow> 'w TransferQueue" where
  "run env ops st = foldl (\<lambda>s op. apply_op env op s) st ops"

text \<open>
  The slots that are PendingUpload or PendingDiscard, their number, and the balance the
  empty-slot count is meant to keep with it.
\<close>

definition nonEmpty :: "TileTransferData \<Rightarrow> bool" where
  "nonEmpty d = (status d = pendingBlit \<or> status d = pendingDiscard)"

definition pendingCount :: "'w TransferQueue \<Rightarrow> nat" where
  "pendingCount st = length (filter nonEmpty (m_transferQueue st))"

definition balanced :: "'w TransferQueue \<Rightarrow> bool" where
  "balanced st = (m_emptyItemCount st + int (pendingCount st) = int (m_transferQueueSize st))"

definition bounded :: "'w TransferQueue \<Rightarrow> bool" where
  "bounded st = (wellFormed st
      \<and> m_emptyItemCount st + int (pendingCount st) \<le> int (m_transferQueueSize st))"

text \<open>
  A sequence is admitted when every enqueue in it is made with a positive empty-slot
  count, as the admission gate intends, and \<open>cleanupPendingDiscard\<close> is never run on its
  own.
\<close>

fun admitted :: "'w env \<Rightarrow> queue_op list \<Rightarrow> 'w TransferQueue \<Rightarrow> bool" where
  "admitted env [] st = True"
| "admitted env (Enqueue renderInfo type bm # ops) st =
     (0 < m_emptyItemCount st \<and> admitted env ops (addItemInTransferQueue env renderInfo type bm st))"
| "admitted env (CleanupPendingDiscard # ops) st = False"
| "admitted env (op # ops) st = admitted env ops (apply_op env op st)"

text \<open>
  The slot an enqueue writes, and the shape of the ring between drains: in walk order, a
  run of Empty slots followed by the slots written since the last drain.
\<close>

definition writtenSlot ::
  "'w env \<Rightarrow> TileRenderInfo \<Rightarrow> TextureUploadType \<Rightarrow> SkBitmap option \<Rightarrow> 'w TransferQueue
     \<Rightarrow> TileTransferData" where
  "writtenSlot env ri ty bm st =
     (let old = m_transferQueue st ! (Suc (m_transferQueueIndex st) mod m_transferQueueSize st);
          data = addItemCommon env (world st) ri ty old
      in if ty = CpuUpload \<and> bm \<noteq> None then data\<lparr>bitmap := bm\<rparr> else data)"

definition inOrder :: "'w TransferQueue \<Rightarrow> bool" where
  "inOrder st =
     (wellFormed st
      \<and> (\<exists>k \<le> m_transferQueueSize st.
            m_emptyItemCount st = int (m_transferQueueSize st) - int k
            \<and> map nonEmpty (rotate (Suc (m_transferQueueIndex st)) (m_transferQueue st))
                = replicate (m_transferQueueSize st - k) False @ replicate k True))"

text \<open>
  What the side queue is to do, entry by entry in queue order: an entry that is
  PendingUpload and whose destination is non-null and still has the expected, non-null
  back texture gets its colour written and is marked transfer-complete; any other entry
  is dropped. The result is the list of calls and the collaborators' state after them.
\<close>

fun sideQueueTrace :: "'w env \<Rightarrow> 'w \<Rightarrow> TileTransferData list \<Rightarrow> ext_call list \<times> 'w" where
  "sideQueueTrace env w [] = ([], w)"
| "sideQueueTrace env w (d # ds) =
     (if status d = pendingBlit \<and> savedTilePtr d \<noteq> 0
         \<and> tile_backTexture env w (savedTilePtr d) \<noteq> 0
         \<and> tile_backTexture env w (savedTilePtr d) = savedTileTexturePtr d
      then
        (let t = tile_backTexture env w (savedTilePtr d);
             w1 = effect env (TransferComplete t) (effect env (SetPureColor t (pureColor d)) w);
             r = sideQueueTrace env w1 ds
         in (SetPureColor t (pureColor d) # TransferComplete t # fst r, snd r))
      else sideQueueTrace env w ds)"

text \<open>
  What discard resolution is to do, slot by slot in walk order: for a PendingDiscard
  slot, advance the shared surface if the slot is a \<open>GpuUpload\<close> one, then call
  \<open>discardBackTexture\<close> on the destination if and only if the destination and the
  expected texture are non-null and the texture's owner is that destination.
\<close>

fun discardTrace :: "'w env \<Rightarrow> 'w \<Rightarrow> TileTransferData list \<Rightarrow> ext_call list \<times> 'w" where
  "discardTrace env w [] = ([], w)"
| "discardTrace env w (d # ds) =
     (if status d = pendingDiscard then
        (let advance = (uploadType d = GpuUpload);
             w1 = (if advance then effect env UpdateTexImage w else w);
             owned = (savedTilePtr d \<noteq> 0 \<and> savedTileTexturePtr d \<noteq> 0
                      \<and> texture_owner env w1 (savedTileTexturePtr d) = savedTilePtr d);
             w2 = (if owned then effect env (DiscardBackTexture (savedTilePtr d)) w1 else w1);
             r = discardTrace env w2 ds
         in ((if advance then [UpdateTexImage] else [])
             @ (if owned then [DiscardBackTexture (savedTilePtr d)] else [])
             @ fst r, snd r))
      else discardTrace env w ds)"

text \<open>The calls that complete a transfer into a texture.\<close>

fun isTransferComplete :: "ext_call \<Rightarrow> bool" where
  "isTransferComplete (TransferComplete t) = True"
| "isTransferComplete c = False"

section \<open>Lemmas on the loops\<close>

lemma ringOrder_Suc:
  assumes "start < N"
  shows "ringOrder N start (Suc n) = start # ringOrder N ((start + 1) mod N) n"
proof -
  have "[0..<Suc n] = 0 # map Suc [0..<n]"
    by (simp add: upt_conv_Cons map_Suc_upt del: upt_Suc)
  then have "ringOrder N start (Suc n)
               = (start + 0) mod N # map (\<lambda>k. (start + Suc k) mod N) [0..<n]"
    unfolding ringOrder_def by (simp add: comp_def del: upt_Suc)
  moreover have "(start + Suc k) mod N = ((start + 1) mod N + k) mod N" for k
    by (simp add: mod_add_left_eq)
  ultimately show ?thesis using assms by (simp add: ringOrder_def)
qed

lemma ringOrder_full:
  assumes "start < N"
  shows "ringOrder N start N = rotate start [0..<N]"
proof (rule nth_equalityI)
  show "length (ringOrder N start N) = length (rotate start [0..<N])"
    by (simp add: ringOrder_def)
next
  fix i assume "i < length (ringOrder N start N)"
  then have i: "i < N" by (simp add: ringOrder_def)
  then show "ringOrder N start N ! i = rotate start [0..<N] ! i"
    by (simp add: ringOrder_def nth_rotate)
qed

lemma ringOrder_distinct: "start < N \<Longrightarrow> distinct (ringOrder N start N)"
  by (simp add: ringOrder_full)

lemma ringOrder_set: "start < N \<Longrightarrow> set (ringOrder N start N) = {0..<N}"
  by (simp add: ringOrder_full)

lemma ringOrder_sum:
  fixes g :: "'a \<Rightarrow> nat"
  assumes "start < length q"
  shows "sum_list (map (\<lambda>i. g (q ! i)) (ringOrder (length q) start (length q)))
           = sum_list (map g q)"
proof -
  have "map (\<lambda>i. g (q ! i)) (ringOrder (length q) start (length q))
          = map g (map (nth q) (rotate start [0..<length q]))"
    using assms by (simp add: ringOrder_full)
  also have "\<dots> = map g (rotate start q)"
    by (simp only: rotate_map [symmetric] map_nth)
  also have "\<dots> = rotate start (map g q)"
    by (simp only: rotate_map)
  finally have e: "map (\<lambda>i. g (q ! i)) (ringOrder (length q) start (length q)) = rotate start (map g q)" .
  have "sum_list (rotate start (map g q)) = sum_list (map g q)"
  proof -
    have "sum_list (drop n xs @ take n xs) = sum_list (xs :: nat list)" for n xs
    proof -
      have "sum_list (drop n xs @ take n xs) = sum_list (take n xs @ drop n xs)"
        by (simp only: sum_list_append add.commute)
      then show ?thesis by simp
    qed
    then show ?thesis by (simp add: rotate_drop_take)
  qed
  then show ?thesis using e by simp
qed

lemma fold_ring_generic:
  fixes step :: "nat \<Rightarrow> 's \<Rightarrow> 's" and ring :: "'s \<Rightarrow> 'a list" and cnt :: "'s \<Rightarrow> nat"
  assumes ring_step: "\<And>i s. i < length (ring s) \<Longrightarrow> ring (step i s) = (ring s)[i := f (ring s ! i)]"
      and cnt_step: "\<And>i s. i < length (ring s) \<Longrightarrow> cnt (step i s) = cnt s + g (ring s ! i)"
  shows "distinct xs \<Longrightarrow> \<forall>i\<in>set xs. i < length (ring s) \<Longrightarrow>
     ring (foldl (\<lambda>s i. step i s) s xs)
       = map (\<lambda>j. if j \<in> set xs then f (ring s ! j) else ring s ! j) [0..<length (ring s)]
     \<and> cnt (foldl (\<lambda>s i. step i s) s xs) = cnt s + sum_list (map (\<lambda>i. g (ring s ! i)) xs)"
proof (induction xs arbitrary: s)
  case Nil
  then show ?case by (simp add: map_nth)
next
  case (Cons i xs)
  let ?s = "step i s"
  have i: "i < length (ring s)" "i \<notin> set xs" using Cons.prems by auto
  have r: "ring ?s = (ring s)[i := f (ring s ! i)]" using ring_step i by simp
  have c: "cnt ?s = cnt s + g (ring s ! i)" using cnt_step i by simp
  have IH: "ring (foldl (\<lambda>s i. step i s) ?s xs)
       = map (\<lambda>j. if j \<in> set xs then f (ring ?s ! j) else ring ?s ! j) [0..<length (ring ?s)]
     \<and> cnt (foldl (\<lambda>s i. step i s) ?s xs) = cnt ?s + sum_list (map (\<lambda>i. g (ring ?s ! i)) xs)"
    using Cons.IH [of ?s] Cons.prems r by simp
  have same: "\<And>j. j \<in> set xs \<Longrightarrow> ring ?s ! j = ring s ! j"
    using i r by (metis nth_list_update_neq)
  have m: "map (\<lambda>j. if j \<in> set xs then f (ring ?s ! j) else ring ?s ! j) [0..<length (ring ?s)]
         = map (\<lambda>j. if j \<in> set (i # xs) then f (ring s ! j) else ring s ! j) [0..<length (ring s)]"
    using i r same by (auto simp: nth_list_update)
  have s: "map (\<lambda>i. g (ring ?s ! i)) xs = map (\<lambda>i. g (ring s ! i)) xs"
    using same by simp
  show ?case using IH m s c by simp
qed


lemma call_fields [simp]:
  "m_transferQueue (call env c st) = m_transferQueue st"
  "m_transferQueueSize (call env c st) = m_transferQueueSize st"
  "m_transferQueueIndex (call env c st) = m_transferQueueIndex st"
  "m_emptyItemCount (call env c st) = m_emptyItemCount st"
  "m_pureColorTileQueue (call env c st) = m_pureColorTileQueue st"
  "m_hasGLContext (call env c st) = m_hasGLContext st"
  "m_interruptedByRemovingOp (call env c st) = m_interruptedByRemovingOp st"
  "m_currentUploadType (call env c st) = m_currentUploadType st"
  "m_ANW (call env c st) = m_ANW st"
  "m_fboID (call env c st) = m_fboID st"
  "m_sharedSurfaceTextureId (call env c st) = m_sharedSurfaceTextureId st"
  "m_GLStateBeforeBlit (call env c st) = m_GLStateBeforeBlit st"
  "world (call env c st) = effect env c (world st)"
  "calls (call env c st) = calls st @ [(c, m_transferQueue st)]"
  "events (call env c st) = events st @ [c]"
  by (simp_all add: call_def events_def)

lemma events_update [simp]:
  "events (st\<lparr>m_transferQueue := q\<rparr>) = events st"
  "events (st\<lparr>m_GLStateBeforeBlit := g\<rparr>) = events st"
  "events (st\<lparr>m_emptyItemCount := n\<rparr>) = events st"
  "events (st\<lparr>m_pureColorTileQueue := p\<rparr>) = events st"
  "events (st\<lparr>m_hasGLContext := b\<rparr>) = events st"
  "events (st\<lparr>m_transferQueueIndex := i\<rparr>) = events st"
  "events (st\<lparr>m_currentUploadType := t\<rparr>) = events st"
  "events (st\<lparr>m_interruptedByRemovingOp := b\<rparr>) = events st"
  by (simp_all add: events_def)

lemma saveGLState_fields [simp]:
  "m_transferQueue (saveGLState env st) = m_transferQueue st"
  "m_transferQueueSize (saveGLState env st) = m_transferQueueSize st"
  "m_transferQueueIndex (saveGLState env st) = m_transferQueueIndex st"
  "m_emptyItemCount (saveGLState env st) = m_emptyItemCount st"
  "m_pureColorTileQueue (saveGLState env st) = m_pureColorTileQueue st"
  "m_hasGLContext (saveGLState env st) = m_hasGLContext st"
  "m_interruptedByRemovingOp (saveGLState env st) = m_interruptedByRemovingOp st"
  "m_currentUploadType (saveGLState env st) = m_currentUploadType st"
  "m_ANW (saveGLState env st) = m_ANW st"
  "m_fboID (saveGLState env st) = m_fboID st"
  "m_sharedSurfaceTextureId (saveGLState env st) = m_sharedSurfaceTextureId st"
  by (simp_all add: saveGLState_def Let_def)

lemma restoreGLState_fields [simp]:
  "m_transferQueue (restoreGLState env st) = m_transferQueue st"
  "m_transferQueueSize (restoreGLState env st) = m_transferQueueSize st"
  "m_transferQueueIndex (restoreGLState env st) = m_transferQueueIndex st"
  "m_emptyItemCount (restoreGLState env st) = m_emptyItemCount st"
  "m_pureColorTileQueue (restoreGLState env st) = m_pureColorTileQueue st"
  "m_hasGLContext (restoreGLState env st) = m_hasGLContext st"
  "m_interruptedByRemovingOp (restoreGLState env st) = m_interruptedByRemovingOp st"
  "m_currentUploadType (restoreGLState env st) = m_currentUploadType st"
  "m_ANW (restoreGLState env st) = m_ANW st"
  "m_fboID (restoreGLState env st) = m_fboID st"
  "m_sharedSurfaceTextureId (restoreGLState env st) = m_sharedSurfaceTextureId st"
  by (simp_all add: restoreGLState_def Let_def split: prod.split)

lemma blitTileFromQueue_fields [simp]:
  "m_transferQueue (blitTileFromQueue env f d t s i st) = m_transferQueue st"
  "m_transferQueueSize (blitTileFromQueue env f d t s i st) = m_transferQueueSize st"
  "m_transferQueueIndex (blitTileFromQueue env f d t s i st) = m_transferQueueIndex st"
  "m_emptyItemCount (blitTileFromQueue env f d t s i st) = m_emptyItemCount st"
  "m_pureColorTileQueue (blitTileFromQueue env f d t s i st) = m_pureColorTileQueue st"
  "m_hasGLContext (blitTileFromQueue env f d t s i st) = m_hasGLContext st"
  "m_interruptedByRemovingOp (blitTileFromQueue env f d t s i st) = m_interruptedByRemovingOp st"
  "m_currentUploadType (blitTileFromQueue env f d t s i st) = m_currentUploadType st"
  "m_ANW (blitTileFromQueue env f d t s i st) = m_ANW st"
  "m_fboID (blitTileFromQueue env f d t s i st) = m_fboID st"
  "m_sharedSurfaceTextureId (blitTileFromQueue env f d t s i st) = m_sharedSurfaceTextureId st"
  by (simp_all add: blitTileFromQueue_def Let_def)

lemma helpers_texImage [simp]:
  "count_list (events (saveGLState env st)) UpdateTexImage = count_list (events st) UpdateTexImage"
  "count_list (events (restoreGLState env st)) UpdateTexImage = count_list (events st) UpdateTexImage"
  "count_list (events (blitTileFromQueue env f d t s i st)) UpdateTexImage
     = count_list (events st) UpdateTexImage"
  by (simp_all add: saveGLState_def restoreGLState_def blitTileFromQueue_def Let_def
      split: prod.split)

lemma cleanupPendingDiscard_body_ring:
  "m_transferQueue (cleanupPendingDiscard_body env i st)
     = (m_transferQueue st)[i := discardClear (m_transferQueue st ! i)]"
  by (simp add: cleanupPendingDiscard_body_def discardClear_def Let_def)

lemma cleanupPendingDiscard_body_texImage:
  "texImageCount (cleanupPendingDiscard_body env i st)
     = texImageCount st
       + (if status (m_transferQueue st ! i) = pendingDiscard
             \<and> uploadType (m_transferQueue st ! i) = GpuUpload then 1 else 0)"
  by (simp add: cleanupPendingDiscard_body_def texImageCount_def Let_def)

lemma cleanupPendingDiscard_body_fields:
  "m_transferQueueSize (cleanupPendingDiscard_body env i st) = m_transferQueueSize st"
  "m_transferQueueIndex (cleanupPendingDiscard_body env i st) = m_transferQueueIndex st"
  "m_emptyItemCount (cleanupPendingDiscard_body env i st) = m_emptyItemCount st"
  "m_pureColorTileQueue (cleanupPendingDiscard_body env i st) = m_pureColorTileQueue st"
  "m_hasGLContext (cleanupPendingDiscard_body env i st) = m_hasGLContext st"
  "m_currentUploadType (cleanupPendingDiscard_body env i st) = m_currentUploadType st"
  by (simp_all add: cleanupPendingDiscard_body_def Let_def)

lemma updateDirtyTiles_body_ring:
  "m_transferQueue (snd (updateDirtyTiles_body env i acc))
     = (m_transferQueue (snd acc))[i := uploadClear (m_transferQueue (snd acc) ! i)]"
  by (cases acc) (simp add: updateDirtyTiles_body_def uploadClear_def Let_def)


lemma updateDirtyTiles_body_texImage:
  "texImageCount (snd (updateDirtyTiles_body env i acc))
     = texImageCount (snd acc)
       + (if status (m_transferQueue (snd acc) ! i) = pendingBlit
             \<and> uploadType (m_transferQueue (snd acc) ! i) = GpuUpload then 1 else 0)"
  by (cases acc)
    (simp add: updateDirtyTiles_body_def Let_def texImageCount_def)

lemma updateDirtyTiles_body_fields:
  "m_transferQueueSize (snd (updateDirtyTiles_body env i acc)) = m_transferQueueSize (snd acc)"
  "m_transferQueueIndex (snd (updateDirtyTiles_body env i acc)) = m_transferQueueIndex (snd acc)"
  "m_emptyItemCount (snd (updateDirtyTiles_body env i acc)) = m_emptyItemCount (snd acc)"
  "m_pureColorTileQueue (snd (updateDirtyTiles_body env i acc)) = m_pureColorTileQueue (snd acc)"
  "m_hasGLContext (snd (updateDirtyTiles_body env i acc)) = m_hasGLContext (snd acc)"
  "m_currentUploadType (snd (updateDirtyTiles_body env i acc)) = m_currentUploadType (snd acc)"
  by (cases acc, simp add: updateDirtyTiles_body_def Let_def)+


lemma cleanupPendingDiscard_loop_fold:
  "index < m_transferQueueSize st \<Longrightarrow>
   cleanupPendingDiscard_loop env n index st
     = foldl (\<lambda>s i. cleanupPendingDiscard_body env i s) st
         (ringOrder (m_transferQueueSize st) index n)"
proof (induction n arbitrary: index st)
  case 0
  then show ?case by (simp add: ringOrder_def)
next
  case (Suc n)
  let ?N = "m_transferQueueSize st"
  have "(index + 1) mod ?N < m_transferQueueSize (cleanupPendingDiscard_body env index st)"
    using Suc.prems by (simp add: cleanupPendingDiscard_body_fields)
  from Suc.IH [OF this] show ?case
    using Suc.prems by (simp add: ringOrder_Suc cleanupPendingDiscard_body_fields)
qed

lemma updateDirtyTiles_loop_fold:
  "index < m_transferQueueSize (snd acc) \<Longrightarrow>
   updateDirtyTiles_loop env n index acc
     = foldl (\<lambda>a i. updateDirtyTiles_body env i a) acc
         (ringOrder (m_transferQueueSize (snd acc)) index n)"
proof (induction n arbitrary: index acc)
  case 0
  then show ?case by (simp add: ringOrder_def)
next
  case (Suc n)
  let ?N = "m_transferQueueSize (snd acc)"
  have "(index + 1) mod ?N < m_transferQueueSize (snd (updateDirtyTiles_body env index acc))"
    using Suc.prems by (simp add: updateDirtyTiles_body_fields)
  from Suc.IH [OF this] show ?case
    using Suc.prems by (simp add: ringOrder_Suc updateDirtyTiles_body_fields)
qed

lemma fold_ring_full:
  fixes step :: "nat \<Rightarrow> 's \<Rightarrow> 's" and ring :: "'s \<Rightarrow> 'a list" and cnt :: "'s \<Rightarrow> nat"
  assumes ring_step: "\<And>i s. i < length (ring s) \<Longrightarrow> ring (step i s) = (ring s)[i := f (ring s ! i)]"
      and cnt_step: "\<And>i s. i < length (ring s) \<Longrightarrow> cnt (step i s) = cnt s + g (ring s ! i)"
      and start: "start < length (ring s)"
  shows "ring (foldl (\<lambda>s i. step i s) s (ringOrder (length (ring s)) start (length (ring s))))
           = map f (ring s)"
    and "cnt (foldl (\<lambda>s i. step i s) s (ringOrder (length (ring s)) start (length (ring s))))
           = cnt s + sum_list (map g (ring s))"
proof -
  let ?xs = "ringOrder (length (ring s)) start (length (ring s))"
  have d: "distinct ?xs" and m: "set ?xs = {0..<length (ring s)}"
    using start by (simp_all add: ringOrder_distinct ringOrder_set)
  then have b: "\<forall>i\<in>set ?xs. i < length (ring s)" by simp
  note g = fold_ring_generic [of ring step f cnt g ?xs s, OF ring_step cnt_step d b]
  have "map (\<lambda>j. if j \<in> set ?xs then f (ring s ! j) else ring s ! j) [0..<length (ring s)]
          = map (\<lambda>j. f (ring s ! j)) [0..<length (ring s)]"
    using m by simp
  also have "\<dots> = map f (map (nth (ring s)) [0..<length (ring s)])"
    by (simp add: comp_def)
  also have "\<dots> = map f (ring s)"
    by (simp only: map_nth)
  finally show "ring (foldl (\<lambda>s i. step i s) s ?xs) = map f (ring s)"
    using g by simp
  show "cnt (foldl (\<lambda>s i. step i s) s ?xs) = cnt s + sum_list (map g (ring s))"
    using g ringOrder_sum [OF start, of g] by simp
qed

lemma foldl_cleanup_fields:
  "m_transferQueueSize (foldl (\<lambda>s i. cleanupPendingDiscard_body env i s) st xs) = m_transferQueueSize st"
  "m_transferQueueIndex (foldl (\<lambda>s i. cleanupPendingDiscard_body env i s) st xs) = m_transferQueueIndex st"
  "m_emptyItemCount (foldl (\<lambda>s i. cleanupPendingDiscard_body env i s) st xs) = m_emptyItemCount st"
  "m_pureColorTileQueue (foldl (\<lambda>s i. cleanupPendingDiscard_body env i s) st xs) = m_pureColorTileQueue st"
  "m_hasGLContext (foldl (\<lambda>s i. cleanupPendingDiscard_body env i s) st xs) = m_hasGLContext st"
  "m_currentUploadType (foldl (\<lambda>s i. cleanupPendingDiscard_body env i s) st xs) = m_currentUploadType st"
  by (induction xs arbitrary: st, simp_all add: cleanupPendingDiscard_body_fields)+

lemma foldl_update_fields:
  "m_transferQueueSize (snd (foldl (\<lambda>a i. updateDirtyTiles_body env i a) acc xs)) = m_transferQueueSize (snd acc)"
  "m_transferQueueIndex (snd (foldl (\<lambda>a i. updateDirtyTiles_body env i a) acc xs)) = m_transferQueueIndex (snd acc)"
  "m_emptyItemCount (snd (foldl (\<lambda>a i. updateDirtyTiles_body env i a) acc xs)) = m_emptyItemCount (snd acc)"
  "m_pureColorTileQueue (snd (foldl (\<lambda>a i. updateDirtyTiles_body env i a) acc xs)) = m_pureColorTileQueue (snd acc)"
  "m_hasGLContext (snd (foldl (\<lambda>a i. updateDirtyTiles_body env i a) acc xs)) = m_hasGLContext (snd acc)"
  "m_currentUploadType (snd (foldl (\<lambda>a i. updateDirtyTiles_body env i a) acc xs)) = m_currentUploadType (snd acc)"
  by (induction xs arbitrary: acc, simp_all add: updateDirtyTiles_body_fields)+

lemma next_index_less: "wellFormed st \<Longrightarrow> getNextTransferQueueIndex st < m_transferQueueSize st"
  by (simp add: wellFormed_def getNextTransferQueueIndex_def)

lemma cleanupPendingDiscard_fold:
  assumes "wellFormed st"
  shows "cleanupPendingDiscard env st
           = foldl (\<lambda>s i. cleanupPendingDiscard_body env i s) st
               (ringOrder (m_transferQueueSize st) (getNextTransferQueueIndex st) (m_transferQueueSize st))"
  using assms next_index_less [OF assms]
  by (simp add: cleanupPendingDiscard_def cleanupPendingDiscard_loop_fold)

lemma cleanupPendingDiscard_ring:
  assumes "wellFormed st"
  shows "m_transferQueue (cleanupPendingDiscard env st) = map discardClear (m_transferQueue st)"
    and "texImageCount (cleanupPendingDiscard env st)
           = texImageCount st
             + sum_list (map (\<lambda>d. if status d = pendingDiscard \<and> uploadType d = GpuUpload then 1 else 0)
                 (m_transferQueue st))"
proof -
  have len: "length (m_transferQueue st) = m_transferQueueSize st"
    and start: "getNextTransferQueueIndex st < length (m_transferQueue st)"
    using assms next_index_less [OF assms] by (simp_all add: wellFormed_def)
  note f = fold_ring_full [where ring = m_transferQueue
      and step = "cleanupPendingDiscard_body env" and cnt = texImageCount and s = st,
      OF cleanupPendingDiscard_body_ring cleanupPendingDiscard_body_texImage start]
  show "m_transferQueue (cleanupPendingDiscard env st) = map discardClear (m_transferQueue st)"
    using f(1) by (simp add: cleanupPendingDiscard_fold [OF assms] len)
  show "texImageCount (cleanupPendingDiscard env st)
           = texImageCount st
             + sum_list (map (\<lambda>d. if status d = pendingDiscard \<and> uploadType d = GpuUpload then 1 else 0)
                 (m_transferQueue st))"
    using f(2) by (simp add: cleanupPendingDiscard_fold [OF assms] len)
qed

lemma cleanupPendingDiscard_fields:
  assumes "wellFormed st"
  shows "m_transferQueueSize (cleanupPendingDiscard env st) = m_transferQueueSize st"
    "m_transferQueueIndex (cleanupPendingDiscard env st) = m_transferQueueIndex st"
    "m_emptyItemCount (cleanupPendingDiscard env st) = m_emptyItemCount st"
    "m_pureColorTileQueue (cleanupPendingDiscard env st) = m_pureColorTileQueue st"
    "m_hasGLContext (cleanupPendingDiscard env st) = m_hasGLContext st"
    "m_currentUploadType (cleanupPendingDiscard env st) = m_currentUploadType st"
  by (simp_all add: cleanupPendingDiscard_fold [OF assms] foldl_cleanup_fields)


lemma updatePureColorTiles_body_fields [simp]:
  "m_transferQueue (updatePureColorTiles_body env st d) = m_transferQueue st"
  "m_transferQueueSize (updatePureColorTiles_body env st d) = m_transferQueueSize st"
  "m_transferQueueIndex (updatePureColorTiles_body env st d) = m_transferQueueIndex st"
  "m_emptyItemCount (updatePureColorTiles_body env st d) = m_emptyItemCount st"
  "m_hasGLContext (updatePureColorTiles_body env st d) = m_hasGLContext st"
  "m_currentUploadType (updatePureColorTiles_body env st d) = m_currentUploadType st"
  "count_list (events (updatePureColorTiles_body env st d)) UpdateTexImage
     = count_list (events st) UpdateTexImage"
  by (simp_all add: updatePureColorTiles_body_def Let_def)

lemma foldl_pureColor_fields [simp]:
  "m_transferQueue (foldl (updatePureColorTiles_body env) st ds) = m_transferQueue st"
  "m_transferQueueSize (foldl (updatePureColorTiles_body env) st ds) = m_transferQueueSize st"
  "m_transferQueueIndex (foldl (updatePureColorTiles_body env) st ds) = m_transferQueueIndex st"
  "m_emptyItemCount (foldl (updatePureColorTiles_body env) st ds) = m_emptyItemCount st"
  "m_hasGLContext (foldl (updatePureColorTiles_body env) st ds) = m_hasGLContext st"
  "m_currentUploadType (foldl (updatePureColorTiles_body env) st ds) = m_currentUploadType st"
  "count_list (events (foldl (updatePureColorTiles_body env) st ds)) UpdateTexImage
     = count_list (events st) UpdateTexImage"
  by (induction ds arbitrary: st, simp_all)+

lemma updatePureColorTiles_fields [simp]:
  "m_transferQueue (updatePureColorTiles env st) = m_transferQueue st"
  "m_transferQueueSize (updatePureColorTiles env st) = m_transferQueueSize st"
  "m_transferQueueIndex (updatePureColorTiles env st) = m_transferQueueIndex st"
  "m_emptyItemCount (updatePureColorTiles env st) = m_emptyItemCount st"
  "m_hasGLContext (updatePureColorTiles env st) = m_hasGLContext st"
  "m_currentUploadType (updatePureColorTiles env st) = m_currentUploadType st"
  "m_pureColorTileQueue (updatePureColorTiles env st) = []"
  "texImageCount (updatePureColorTiles env st) = texImageCount st"
  by (simp_all add: updatePureColorTiles_def texImageCount_def)

lemma ringWalk_fold:
  assumes "wellFormed st"
  shows "ringWalk env st
         = foldl (\<lambda>a i. updateDirtyTiles_body env i a) (False, st)
             (ringOrder (m_transferQueueSize st) (getNextTransferQueueIndex st) (m_transferQueueSize st))"
  using updateDirtyTiles_loop_fold [of "getNextTransferQueueIndex st" "(False, st)"]
    next_index_less [OF assms] by (simp add: ringWalk_def)

lemma ringWalk_ring:
  assumes "wellFormed st"
  shows "m_transferQueue (snd (ringWalk env st)) = map uploadClear (m_transferQueue st)"
    and "texImageCount (snd (ringWalk env st))
           = texImageCount st
             + sum_list (map (\<lambda>d. if status d = pendingBlit \<and> uploadType d = GpuUpload then 1 else 0)
                 (m_transferQueue st))"
proof -
  have len: "length (m_transferQueue st) = m_transferQueueSize st"
    and start: "getNextTransferQueueIndex st < length (m_transferQueue (snd (False, st)))"
    using assms next_index_less [OF assms] by (simp_all add: wellFormed_def)
  note f = fold_ring_full [where ring = "\<lambda>a. m_transferQueue (snd a)"
      and step = "updateDirtyTiles_body env" and cnt = "\<lambda>a. texImageCount (snd a)" and s = "(False, st)",
      OF updateDirtyTiles_body_ring updateDirtyTiles_body_texImage start]
  show "m_transferQueue (snd (ringWalk env st)) = map uploadClear (m_transferQueue st)"
    using f(1) by (simp add: ringWalk_fold [OF assms] len)
  show "texImageCount (snd (ringWalk env st))
           = texImageCount st
             + sum_list (map (\<lambda>d. if status d = pendingBlit \<and> uploadType d = GpuUpload then 1 else 0)
                 (m_transferQueue st))"
    using f(2) by (simp add: ringWalk_fold [OF assms] len)
qed

lemma ringWalk_fields:
  assumes "wellFormed st"
  shows "m_transferQueueSize (snd (ringWalk env st)) = m_transferQueueSize st"
    "m_transferQueueIndex (snd (ringWalk env st)) = m_transferQueueIndex st"
    "m_pureColorTileQueue (snd (ringWalk env st)) = m_pureColorTileQueue st"
    "m_hasGLContext (snd (ringWalk env st)) = m_hasGLContext st"
    "m_currentUploadType (snd (ringWalk env st)) = m_currentUploadType st"
  by (simp_all add: ringWalk_fold [OF assms] foldl_update_fields)

lemma updateDirtyTiles_finish_fields [simp]:
  "m_transferQueue (updateDirtyTiles_finish env acc) = m_transferQueue (snd acc)"
  "m_transferQueueSize (updateDirtyTiles_finish env acc) = m_transferQueueSize (snd acc)"
  "m_transferQueueIndex (updateDirtyTiles_finish env acc) = m_transferQueueIndex (snd acc)"
  "m_emptyItemCount (updateDirtyTiles_finish env acc) = int (m_transferQueueSize (snd acc))"
  "m_pureColorTileQueue (updateDirtyTiles_finish env acc) = m_pureColorTileQueue (snd acc)"
  "m_hasGLContext (updateDirtyTiles_finish env acc) = m_hasGLContext (snd acc)"
  "m_currentUploadType (updateDirtyTiles_finish env acc) = m_currentUploadType (snd acc)"
  "texImageCount (updateDirtyTiles_finish env acc) = texImageCount (snd acc)"
  by (cases acc, simp add: updateDirtyTiles_finish_def Let_def texImageCount_def)+

lemma updateDirtyTiles_beforeWalk:
  "updateDirtyTiles env st
     = updateDirtyTiles_finish env (ringWalk env (beforeWalk env st))"
  by (simp add: updateDirtyTiles_def beforeWalk_def ringWalk_def Let_def)

lemma beforeWalk_fields:
  assumes "wellFormed st"
  shows "wellFormed (beforeWalk env st)"
    and "m_transferQueueSize (beforeWalk env st) = m_transferQueueSize st"
    and "m_transferQueueIndex (beforeWalk env st) = m_transferQueueIndex st"
    and "m_transferQueue (beforeWalk env st) = map discardClear (m_transferQueue st)"
    and "m_hasGLContext (beforeWalk env st)"
    and "m_currentUploadType (beforeWalk env st) = m_currentUploadType st"
    and "m_pureColorTileQueue (beforeWalk env st) = []"
    and "texImageCount (beforeWalk env st) = texImageCount (cleanupPendingDiscard env st)"
  using assms
  by (simp_all add: beforeWalk_def wellFormed_def setHasGLContext_def getHasGLContext_def
      cleanupPendingDiscard_ring(1) [OF assms] cleanupPendingDiscard_fields [OF assms])
    (simp add: texImageCount_def)

lemma updateDirtyTiles_ring:
  assumes "wellFormed st"
  shows "m_transferQueue (updateDirtyTiles env st)
           = map (uploadClear \<circ> discardClear) (m_transferQueue st)"
    and "m_transferQueueSize (updateDirtyTiles env st) = m_transferQueueSize st"
    and "m_transferQueueIndex (updateDirtyTiles env st) = m_transferQueueIndex st"
    and "m_emptyItemCount (updateDirtyTiles env st) = int (m_transferQueueSize st)"
    and "m_pureColorTileQueue (updateDirtyTiles env st) = []"
    and "m_hasGLContext (updateDirtyTiles env st) = True"
    and "m_currentUploadType (updateDirtyTiles env st) = m_currentUploadType st"
  using beforeWalk_fields [OF assms, of env]
  by (simp_all add: updateDirtyTiles_beforeWalk ringWalk_ring ringWalk_fields)

lemma sum_indicator_filter:
  "sum_list (map (\<lambda>d. if P d then 1 else 0) xs) = length (filter P xs)"
  by (induction xs) simp_all

lemma updateDirtyTiles_texImage:
  assumes "wellFormed st"
  shows "texImageCount (updateDirtyTiles env st)
           = texImageCount st
             + length (filter (\<lambda>d. uploadType d = GpuUpload \<and> status d \<noteq> emptyItem) (m_transferQueue st))"
proof -
  let ?D = "\<lambda>d. status d = pendingDiscard \<and> uploadType d = GpuUpload"
  let ?B = "\<lambda>d. status d = pendingBlit \<and> uploadType d = GpuUpload"
  note bw = beforeWalk_fields [OF assms, of env]
  have "texImageCount (updateDirtyTiles env st) = texImageCount (snd (ringWalk env (beforeWalk env st)))"
    by (simp add: updateDirtyTiles_beforeWalk)
  also have "\<dots> = texImageCount (beforeWalk env st)
                   + length (filter ?B (m_transferQueue (beforeWalk env st)))"
    by (simp only: ringWalk_ring(2) [OF bw(1)] sum_indicator_filter)
  also have "texImageCount (beforeWalk env st) = texImageCount st + length (filter ?D (m_transferQueue st))"
    by (simp only: bw(8) cleanupPendingDiscard_ring(2) [OF assms] sum_indicator_filter)
  finally have a: "texImageCount (updateDirtyTiles env st)
         = texImageCount st + length (filter ?D (m_transferQueue st))
           + length (filter ?B (map discardClear (m_transferQueue st)))"
    by (simp only: bw(4))
  have b: "length (filter ?D q) + length (filter ?B (map discardClear q))
         = length (filter (\<lambda>d. uploadType d = GpuUpload \<and> status d \<noteq> emptyItem) q)" for q
  proof (induction q)
    case Nil
    then show ?case by simp
  next
    case (Cons d q)
    then show ?case by (cases "status d") (auto simp: discardClear_def)
  qed
  show ?thesis using a b [of "m_transferQueue st"] by simp
qed

section \<open>A drain cycle with nothing pending\<close>

lemma cleanup_loop_idle:
  "\<forall>i < m_transferQueueSize st. status (m_transferQueue st ! i) \<noteq> pendingDiscard \<Longrightarrow>
   index < m_transferQueueSize st \<Longrightarrow>
   cleanupPendingDiscard_loop env n index st = st"
  by (induction n arbitrary: index) (simp_all add: cleanupPendingDiscard_body_def)

lemma update_loop_idle:
  "\<forall>i < m_transferQueueSize st. status (m_transferQueue st ! i) \<noteq> pendingBlit \<Longrightarrow>
   index < m_transferQueueSize st \<Longrightarrow>
   updateDirtyTiles_loop env n index (u, st) = (u, st)"
  by (induction n arbitrary: index) (simp_all add: updateDirtyTiles_body_def)

lemma updateDirtyTiles_idle:
  assumes w: "wellFormed st"
      and e: "\<forall>i < m_transferQueueSize st. status (m_transferQueue st ! i) = emptyItem"
      and p: "m_pureColorTileQueue st = []"
  shows "calls (updateDirtyTiles env st) = calls st @ [(CondSignal, m_transferQueue st)]"
    and "m_transferQueue (updateDirtyTiles env st) = m_transferQueue st"
proof -
  have c: "cleanupPendingDiscard env st = st"
    using e next_index_less [OF w] by (simp add: cleanupPendingDiscard_def cleanup_loop_idle)
  have b: "beforeWalk env st = st\<lparr>m_hasGLContext := True\<rparr>"
    using p by (simp add: beforeWalk_def c updatePureColorTiles_def getHasGLContext_def setHasGLContext_def)
  have r: "ringWalk env (st\<lparr>m_hasGLContext := True\<rparr>) = (False, st\<lparr>m_hasGLContext := True\<rparr>)"
    using e next_index_less [OF w]
    by (simp add: ringWalk_def update_loop_idle getNextTransferQueueIndex_def)
  show "calls (updateDirtyTiles env st) = calls st @ [(CondSignal, m_transferQueue st)]"
    by (simp add: updateDirtyTiles_beforeWalk b r updateDirtyTiles_finish_def)
  show "m_transferQueue (updateDirtyTiles env st) = m_transferQueue st"
    by (simp add: updateDirtyTiles_beforeWalk b r)
qed

lemma drained_empty:
  assumes "wellFormed st" and "i < m_transferQueueSize st"
  shows "status (m_transferQueue (updateDirtyTiles env st) ! i) = emptyItem"
  using assms
  by (cases "status (m_transferQueue st ! i)")
     (simp_all add: updateDirtyTiles_ring wellFormed_def uploadClear_def discardClear_def)

lemma updateDirtyTiles_wellFormed: "wellFormed st \<Longrightarrow> wellFormed (updateDirtyTiles env st)"
  by (simp add: wellFormed_def updateDirtyTiles_ring)

section \<open>Unfolding the model on concrete inputs\<close>

lemmas model_defs =
  tryUpdateQueueWithBitmap_def readyForUpdate_def
  readyForUpdate_afterWait_def updateDirtyTiles_def cleanupPendingDiscard_def Let_def
  getNextTransferQueueIndex_def getHasGLContext_def setHasGLContext_def
  cleanupPendingDiscard_body_def updateDirtyTiles_body_def updatePureColorTiles_def
  updatePureColorTiles_body_def
  updateDirtyTiles_finish_def checkObsolete_def call_def
  saveGLState_def restoreGLState_def blitTileFromQueue_def isEmpty_def
  addItemInTransferQueue_def addItemCommon_def addItemInPureColorQueue_def
  setPendingDiscard_def setPendingDiscard_slot_def setTextureUploadType_def
  interruptTransferQueue_def events_def

lemmas demo_defs =
  demo_queue_def demo_slot_def demo_env_def static_env_def demo_info_def

section \<open>Lemmas on setPendingDiscard\<close>

lemma foldl_setPendingDiscard_slot:
  "n \<le> length q \<Longrightarrow>
   foldl setPendingDiscard_slot q [0..<n] = map discardStatus (take n q) @ drop n q"
proof (induction n)
  case 0
  then show ?case by simp
next
  case (Suc n)
  then have n: "n < length q" by simp
  have "foldl setPendingDiscard_slot q [0..<Suc n]
          = setPendingDiscard_slot (map discardStatus (take n q) @ drop n q) n"
    using Suc by simp
  also have "\<dots> = map discardStatus (take (Suc n) q) @ drop (Suc n) q"
    using n
    by (simp add: setPendingDiscard_slot_def discardStatus_def nth_append take_Suc_conv_app_nth
        list_update_append Cons_nth_drop_Suc [symmetric] upd_conv_take_nth_drop)
  finally show ?case .
qed

lemma setPendingDiscard_fields:
  assumes "length (m_transferQueue st) = m_transferQueueSize st"
  shows "m_transferQueue (setPendingDiscard env st) = map discardStatus (m_transferQueue st)"
    and "m_pureColorTileQueue (setPendingDiscard env st) = []"
    and "m_hasGLContext (setPendingDiscard env st) = False"
    and "events (setPendingDiscard env st)
           = events st @ (if m_hasGLContext st then [CondSignal] else [])"
    and "m_transferQueueSize (setPendingDiscard env st) = m_transferQueueSize st"
    and "m_transferQueueIndex (setPendingDiscard env st) = m_transferQueueIndex st"
    and "m_emptyItemCount (setPendingDiscard env st) = m_emptyItemCount st"
    and "m_currentUploadType (setPendingDiscard env st) = m_currentUploadType st"
  using assms foldl_setPendingDiscard_slot [of "m_transferQueueSize st" "m_transferQueue st"]
  by (simp_all add: setPendingDiscard_def Let_def getHasGLContext_def setHasGLContext_def
      call_def events_def)

section \<open>Lemmas on the call history\<close>

lemma extendsI: "events st' = events st @ xs \<Longrightarrow> \<forall>c \<in> set xs. P c \<Longrightarrow> extends P st st'"
  by (simp add: extends_def)

lemma extendsD: "extends P st st' \<Longrightarrow> \<exists>xs. events st' = events st @ xs \<and> (\<forall>c \<in> set xs. P c)"
  by (metis append_take_drop_id extends_def)

lemma extends_eq: "events st' = events st \<Longrightarrow> extends P st st'"
  by (simp add: extends_def)

lemma extends_refl [simp]: "extends P st st"
  by (simp add: extends_def)

lemma extends_trans: "extends P a b \<Longrightarrow> extends P b c \<Longrightarrow> extends P a c"
proof -
  assume "extends P a b" and "extends P b c"
  then obtain xs ys where "events b = events a @ xs" "\<forall>c \<in> set xs. P c"
    "events c = events b @ ys" "\<forall>c \<in> set ys. P c"
    by (blast dest: extendsD)
  then show ?thesis by (auto intro!: extendsI [where xs = "xs @ ys"])
qed

lemma extends_call: "extends P st st' \<Longrightarrow> P c \<Longrightarrow> extends P st (call env c st')"
proof -
  assume "extends P st st'" and c: "P c"
  then obtain xs where "events st' = events st @ xs" "\<forall>c \<in> set xs. P c"
    by (blast dest: extendsD)
  then show ?thesis using c by (auto intro!: extendsI [where xs = "xs @ [c]"])
qed

lemma extends_update [simp]:
  "extends P st (st'\<lparr>m_GLStateBeforeBlit := g\<rparr>) = extends P st st'"
  "extends P st (st'\<lparr>m_transferQueue := q\<rparr>) = extends P st st'"
  "extends P st (st'\<lparr>m_emptyItemCount := n\<rparr>) = extends P st st'"
  "extends P st (st'\<lparr>m_pureColorTileQueue := p\<rparr>) = extends P st st'"
  "extends P st (st'\<lparr>m_hasGLContext := b\<rparr>) = extends P st st'"
  by (simp_all add: extends_def)

lemma saveGLState_extends:
  "extends (\<lambda>c. \<not> isSetPureColor c) st st' \<Longrightarrow> extends (\<lambda>c. \<not> isSetPureColor c) st (saveGLState env st')"
  by (auto simp: saveGLState_def Let_def intro!: extends_call)

lemma restoreGLState_extends:
  "extends (\<lambda>c. \<not> isSetPureColor c) st st' \<Longrightarrow> extends (\<lambda>c. \<not> isSetPureColor c) st (restoreGLState env st')"
  by (auto simp: restoreGLState_def Let_def intro!: extends_call split: prod.split)

lemma blitTileFromQueue_extends:
  "extends (\<lambda>c. \<not> isSetPureColor c) st st' \<Longrightarrow>
   extends (\<lambda>c. \<not> isSetPureColor c) st (blitTileFromQueue env f d t s i st')"
  by (auto simp: blitTileFromQueue_def Let_def intro!: extends_call)

lemma updateDirtyTiles_body_extends:
  "extends (\<lambda>c. \<not> isSetPureColor c) (snd acc) (snd (updateDirtyTiles_body env i acc))"
  by (cases acc)
    (auto simp: updateDirtyTiles_body_def Let_def
      intro!: extends_call blitTileFromQueue_extends saveGLState_extends)

lemma foldl_body_extends:
  "extends (\<lambda>c. \<not> isSetPureColor c) (snd acc)
     (snd (foldl (\<lambda>a i. updateDirtyTiles_body env i a) acc xs))"
proof (induction xs arbitrary: acc)
  case Nil
  then show ?case by (simp add: extends_eq)
next
  case (Cons i xs)
  show ?case
    using updateDirtyTiles_body_extends [of acc env i] Cons.IH [of "updateDirtyTiles_body env i acc"]
    by (auto elim: extends_trans)
qed

lemma updateDirtyTiles_finish_extends:
  "extends (\<lambda>c. \<not> isSetPureColor c) (snd acc) (updateDirtyTiles_finish env acc)"
  by (cases acc)
    (auto simp: updateDirtyTiles_finish_def Let_def
      intro!: extends_call restoreGLState_extends)

lemma updatePureColorTiles_body_extends:
  "extends sideQueueCall st (updatePureColorTiles_body env st d)"
  by (auto simp: updatePureColorTiles_body_def Let_def intro!: extends_call)

lemma foldl_pureColor_extends:
  "extends sideQueueCall st (foldl (updatePureColorTiles_body env) st ds)"
proof (induction ds arbitrary: st)
  case Nil
  then show ?case by (simp add: extends_eq)
next
  case (Cons d ds)
  show ?case
    using updatePureColorTiles_body_extends [of st env d]
      Cons.IH [of "updatePureColorTiles_body env st d"]
    by (auto elim: extends_trans)
qed

lemma beforeWalk_extends:
  "extends sideQueueCall (cleanupPendingDiscard env st) (beforeWalk env st)"
proof -
  let ?s = "if \<not> getHasGLContext (cleanupPendingDiscard env st)
            then setHasGLContext True (cleanupPendingDiscard env st) else cleanupPendingDiscard env st"
  have a: "extends sideQueueCall (cleanupPendingDiscard env st) ?s"
    by (auto simp: setHasGLContext_def intro!: extends_eq)
  have b: "extends sideQueueCall ?s (foldl (updatePureColorTiles_body env) ?s (m_pureColorTileQueue ?s))"
    by (rule foldl_pureColor_extends)
  have c: "extends sideQueueCall (foldl (updatePureColorTiles_body env) ?s (m_pureColorTileQueue ?s))
             (beforeWalk env st)"
    by (auto simp: beforeWalk_def updatePureColorTiles_def intro!: extends_eq)
  show ?thesis using a b c by (blast intro: extends_trans)
qed

lemma walk_extends:
  assumes "wellFormed st"
  shows "extends (\<lambda>c. \<not> isSetPureColor c) (beforeWalk env st) (updateDirtyTiles env st)"
proof -
  have w: "wellFormed (beforeWalk env st)" using beforeWalk_fields(1) [OF assms] .
  have a: "extends (\<lambda>c. \<not> isSetPureColor c) (beforeWalk env st) (snd (ringWalk env (beforeWalk env st)))"
    using foldl_body_extends [of "(False, beforeWalk env st)" env]
    by (simp add: ringWalk_fold [OF w])
  have b: "extends (\<lambda>c. \<not> isSetPureColor c) (snd (ringWalk env (beforeWalk env st)))
             (updateDirtyTiles env st)"
    by (simp add: updateDirtyTiles_beforeWalk updateDirtyTiles_finish_extends)
  show ?thesis using a b by (rule extends_trans)
qed

lemma foldl_pureColor_trace:
  "events (foldl (updatePureColorTiles_body env) st ds)
     = events st @ fst (sideQueueTrace env (world st) ds)
   \<and> world (foldl (updatePureColorTiles_body env) st ds) = snd (sideQueueTrace env (world st) ds)"
proof (induction ds arbitrary: st)
  case Nil
  then show ?case by simp
next
  case (Cons d ds)
  show ?case
    using Cons.IH [of "updatePureColorTiles_body env st d"]
    by (simp add: updatePureColorTiles_body_def checkObsolete_def Let_def)
qed

lemma world_update [simp]:
  "world (st\<lparr>m_hasGLContext := b\<rparr>) = world st"
  "world (st\<lparr>m_pureColorTileQueue := p\<rparr>) = world st"
  by simp_all

lemma beforeWalk_trace:
  assumes "wellFormed st"
  shows "events (beforeWalk env st)
     = events (cleanupPendingDiscard env st)
       @ fst (sideQueueTrace env (world (cleanupPendingDiscard env st)) (m_pureColorTileQueue st))"
  using foldl_pureColor_trace [of env "cleanupPendingDiscard env st" "m_pureColorTileQueue st"]
    foldl_pureColor_trace [of env "(cleanupPendingDiscard env st)\<lparr>m_hasGLContext := True\<rparr>"
      "m_pureColorTileQueue st"]
  by (simp add: beforeWalk_def updatePureColorTiles_def setHasGLContext_def getHasGLContext_def
      cleanupPendingDiscard_fields [OF assms])

lemma cleanupPendingDiscard_body_trace:
  "events (cleanupPendingDiscard_body env i st)
     = events st @ fst (discardTrace env (world st) [m_transferQueue st ! i])
   \<and> world (cleanupPendingDiscard_body env i st)
     = snd (discardTrace env (world st) [m_transferQueue st ! i])"
  by (simp add: cleanupPendingDiscard_body_def Let_def)

lemma discardTrace_append:
  "discardTrace env w (xs @ ys)
     = (fst (discardTrace env w xs) @ fst (discardTrace env (snd (discardTrace env w xs)) ys),
        snd (discardTrace env (snd (discardTrace env w xs)) ys))"
  by (induction xs arbitrary: w) (simp_all add: Let_def)

lemma foldl_cleanup_trace:
  "distinct xs \<Longrightarrow> \<forall>i \<in> set xs. i < length (m_transferQueue st) \<Longrightarrow>
   events (foldl (\<lambda>s i. cleanupPendingDiscard_body env i s) st xs)
     = events st @ fst (discardTrace env (world st) (map (nth (m_transferQueue st)) xs))
   \<and> world (foldl (\<lambda>s i. cleanupPendingDiscard_body env i s) st xs)
     = snd (discardTrace env (world st) (map (nth (m_transferQueue st)) xs))"
proof (induction xs arbitrary: st)
  case Nil
  then show ?case by simp
next
  case (Cons i xs)
  let ?s = "cleanupPendingDiscard_body env i st"
  have r: "m_transferQueue ?s = (m_transferQueue st)[i := discardClear (m_transferQueue st ! i)]"
    by (rule cleanupPendingDiscard_body_ring)
  have same: "map (nth (m_transferQueue ?s)) xs = map (nth (m_transferQueue st)) xs"
    using Cons.prems r by (auto simp: nth_list_update)
  have IH: "events (foldl (\<lambda>s i. cleanupPendingDiscard_body env i s) ?s xs)
     = events ?s @ fst (discardTrace env (world ?s) (map (nth (m_transferQueue st)) xs))
   \<and> world (foldl (\<lambda>s i. cleanupPendingDiscard_body env i s) ?s xs)
     = snd (discardTrace env (world ?s) (map (nth (m_transferQueue st)) xs))"
  proof -
    have dx: "distinct xs" using Cons.prems by simp
    have bx: "\<forall>i \<in> set xs. i < length (m_transferQueue ?s)" using Cons.prems r by simp
    show ?thesis using Cons.IH [OF dx bx] by (simp only: same)
  qed
  have d: "discardTrace env (world st) (map (nth (m_transferQueue st)) (i # xs))
      = (fst (discardTrace env (world st) [m_transferQueue st ! i])
           @ fst (discardTrace env (snd (discardTrace env (world st) [m_transferQueue st ! i]))
                    (map (nth (m_transferQueue st)) xs)),
         snd (discardTrace env (snd (discardTrace env (world st) [m_transferQueue st ! i]))
                    (map (nth (m_transferQueue st)) xs)))"
    using discardTrace_append [of env "world st" "[m_transferQueue st ! i]"
        "map (nth (m_transferQueue st)) xs"] by simp
  show ?case
    using IH cleanupPendingDiscard_body_trace [of env i st] by (simp only: foldl_Cons d fst_conv snd_conv append_assoc)
qed

lemma ringOrder_nth_rotate:
  assumes "start < length q"
  shows "map (nth q) (ringOrder (length q) start (length q)) = rotate start q"
proof -
  have "map (nth q) (ringOrder (length q) start (length q))
          = map (nth q) (rotate start [0..<length q])"
    using assms by (simp add: ringOrder_full)
  also have "\<dots> = rotate start q"
    by (simp only: rotate_map [symmetric] map_nth)
  finally show ?thesis .
qed

lemma cleanupPendingDiscard_trace:
  assumes "wellFormed st"
  shows "events (cleanupPendingDiscard env st)
     = events st @ fst (discardTrace env (world st)
                          (rotate (getNextTransferQueueIndex st) (m_transferQueue st)))"
proof -
  have len: "length (m_transferQueue st) = m_transferQueueSize st"
    and start: "getNextTransferQueueIndex st < length (m_transferQueue st)"
    using assms next_index_less [OF assms] by (simp_all add: wellFormed_def)
  let ?xs = "ringOrder (length (m_transferQueue st)) (getNextTransferQueueIndex st) (length (m_transferQueue st))"
  have d: "distinct ?xs" and b: "\<forall>i \<in> set ?xs. i < length (m_transferQueue st)"
    using start by (simp_all add: ringOrder_distinct ringOrder_set)
  show ?thesis
    using foldl_cleanup_trace [OF d b, of env] ringOrder_nth_rotate [OF start]
    by (simp add: cleanupPendingDiscard_fold [OF assms] len)
qed

lemma drain_starts_with_discards:
  assumes "wellFormed st"
  shows "take (length (events (cleanupPendingDiscard env st))) (events (updateDirtyTiles env st))
           = events (cleanupPendingDiscard env st)"
proof -
  obtain xs where xs: "events (beforeWalk env st) = events (cleanupPendingDiscard env st) @ xs"
    using beforeWalk_extends [of env st] by (blast dest: extendsD)
  obtain ys where ys: "events (updateDirtyTiles env st) = events (beforeWalk env st) @ ys"
    using walk_extends [OF assms, of env] by (blast dest: extendsD)
  show ?thesis by (simp add: xs ys)
qed

section \<open>The staleness check\<close>

text \<open>
  C1 (as amended). \<open>checkObsolete\<close> returns true if and only if the slot's destination
  reference is null, or the destination's current back texture is null, or that back
  texture differs from the slot's expected texture reference. It returns false exactly
  when the destination is non-null and its back texture is non-null and equal to the
  expected one.
\<close>

theorem checkObsolete_iff:
  "checkObsolete env w data \<longleftrightarrow>
     (savedTilePtr data = 0 \<or> tile_backTexture env w (savedTilePtr data) = 0
      \<or> tile_backTexture env w (savedTilePtr data) \<noteq> savedTileTexturePtr data)"
  by (simp add: checkObsolete_def Let_def)

text \<open>
  C1 as stated fails where the destination exists, has no back texture, and the slot
  recorded a null expected texture: the two texture references are equal and the
  destination is non-null, yet the slot is reported stale.
\<close>

theorem checkObsolete_null_texture_counterexample:
  "\<not> (checkObsolete (static_env (\<lambda>t. 0) (\<lambda>x. 0) True) ()
          \<lparr>status = pendingBlit, savedTilePtr = 1, savedTileTexturePtr = 0,
           uploadType = CpuUpload, bitmap = None, invalRect = IntRect 0 0 0 0, pureColor = 0\<rparr>
        \<longleftrightarrow>
        (savedTilePtr
           \<lparr>status = pendingBlit, savedTilePtr = 1, savedTileTexturePtr = 0,
            uploadType = CpuUpload, bitmap = None, invalRect = IntRect 0 0 0 0, pureColor = 0\<rparr> = 0
         \<or> tile_backTexture (static_env (\<lambda>t. 0) (\<lambda>x. 0) True) ()
              (savedTilePtr
                 \<lparr>status = pendingBlit, savedTilePtr = 1, savedTileTexturePtr = 0,
                  uploadType = CpuUpload, bitmap = None, invalRect = IntRect 0 0 0 0, pureColor = 0\<rparr>)
            \<noteq> savedTileTexturePtr
                 \<lparr>status = pendingBlit, savedTilePtr = 1, savedTileTexturePtr = 0,
                  uploadType = CpuUpload, bitmap = None, invalRect = IntRect 0 0 0 0, pureColor = 0\<rparr>))"
  by (simp add: checkObsolete_def static_env_def)

section \<open>The admission gate\<close>

text \<open>
  Whenever \<open>readyForUpdate\<close> returns a negative flag, \<open>tryUpdateQueueWithBitmap\<close>
  returns false with the queue exactly as \<open>readyForUpdate\<close> returned it: no slot, index
  or count is written.
\<close>

lemma readyForUpdate_negative_no_write:
  assumes "readyForUpdate env others st = Some (False, st1)"
  shows "tryUpdateQueueWithBitmap env others renderInfo bm st = Some (False, st1)"
  using assms by (simp add: tryUpdateQueueWithBitmap_def)

text \<open>
  C2. \<open>readyForUpdate\<close> returns a positive flag with no Empty slot in the ring. The
  source waits once on the condition and does not read the empty-slot count again after
  the wait. A queue of capacity one holds tile 1 and is full; a producer calls
  \<open>readyForUpdate\<close> and waits. The consumer drains the ring and signals; before the
  woken producer holds the lock again another producer enqueues tile 2 into the freed
  slot. The first producer then returns a positive flag although the empty-slot count is
  zero and the only slot is PendingUpload. Through \<open>tryUpdateQueueWithBitmap\<close> that
  producer, enqueuing tile 3, overwrites the pending entry of tile 2 and leaves the
  empty-slot count at \<open>-1\<close>; the next drain completes a transfer for tile 3 (texture
  103) and none for tile 2.
\<close>

theorem readyForUpdate_full_ring:
  "m_emptyItemCount (demo_queue [demo_slot pendingBlit GpuUpload 1] 0 []) = 0
   \<and> (case readyForUpdate demo_env drainThenEnqueue
             (demo_queue [demo_slot pendingBlit GpuUpload 1] 0 []) of
        None \<Rightarrow> False
      | Some (ready, st) \<Rightarrow>
          ready \<and> m_hasGLContext st \<and> m_emptyItemCount st = 0
          \<and> map status (m_transferQueue st) = [pendingBlit]
          \<and> map savedTilePtr (m_transferQueue st) = [2])
   \<and> (case tryUpdateQueueWithBitmap demo_env drainThenEnqueue (demo_info 3) demo_bitmap
             (demo_queue [demo_slot pendingBlit GpuUpload 1] 0 []) of
        None \<Rightarrow> False
      | Some (ok, st) \<Rightarrow>
          ok \<and> m_emptyItemCount st = - 1
          \<and> map status (m_transferQueue st) = [pendingBlit]
          \<and> map savedTilePtr (m_transferQueue st) = [3]
          \<and> filter isTransferComplete (events (updateDirtyTiles demo_env st))
              = [TransferComplete 101, TransferComplete 103])"
  by (simp add: drainThenEnqueue_def model_defs demo_defs)

section \<open>The empty-slot count\<close>

lemma pendingCount_nonEmpty: "pendingCount st = length (filter nonEmpty (m_transferQueue st))"
  by (simp add: pendingCount_def)

lemma filter_update_le: "length (filter P (xs[i := v])) \<le> Suc (length (filter P xs))"
proof (induction xs arbitrary: i)
  case Nil
  then show ?case by simp
next
  case (Cons x xs)
  then show ?case by (cases i) (auto simp: le_SucI)
qed

lemma addItemInTransferQueue_fields:
  "m_transferQueueSize (addItemInTransferQueue env ri ty bm st) = m_transferQueueSize st"
  "m_transferQueueIndex (addItemInTransferQueue env ri ty bm st)
     = Suc (m_transferQueueIndex st) mod m_transferQueueSize st"
  "m_emptyItemCount (addItemInTransferQueue env ri ty bm st) = m_emptyItemCount st - 1"
  "length (m_transferQueue (addItemInTransferQueue env ri ty bm st)) = length (m_transferQueue st)"
  "m_transferQueue (addItemInTransferQueue env ri ty bm st)
     = (m_transferQueue st)[Suc (m_transferQueueIndex st) mod m_transferQueueSize st
          := writtenSlot env ri ty bm st]"
  "nonEmpty (writtenSlot env ri ty bm st)"
  by (auto simp: addItemInTransferQueue_def addItemCommon_def Let_def nonEmpty_def writtenSlot_def)

lemma wellFormed_steps:
  assumes "wellFormed st"
  shows "wellFormed (addItemInTransferQueue env ri ty bm st)"
    and "wellFormed (updateDirtyTiles env st)"
    and "wellFormed (setPendingDiscard env st)"
    and "wellFormed (cleanupPendingDiscard env st)"
  using assms
  by (simp_all add: wellFormed_def addItemInTransferQueue_fields updateDirtyTiles_ring
      setPendingDiscard_fields cleanupPendingDiscard_ring cleanupPendingDiscard_fields)

lemma nonEmpty_maps [simp]:
  "nonEmpty (discardStatus d) = nonEmpty d"
  "nonEmpty (uploadClear (discardClear d)) = False"
  by (cases "status d"; simp add: nonEmpty_def discardStatus_def uploadClear_def discardClear_def)+

lemma nonEmpty_discardClear: "nonEmpty (discardClear d) \<Longrightarrow> nonEmpty d"
  by (cases "status d") (simp_all add: nonEmpty_def discardClear_def)

lemma filter_map_le:
  "(\<And>x. P (f x) \<Longrightarrow> P x) \<Longrightarrow> length (filter P (map f xs)) \<le> length (filter P xs)"
  by (induction xs) (auto simp: le_SucI)

lemma bounded_step:
  assumes "bounded st"
  shows "bounded (apply_op env op st)"
proof (cases op)
  case (Enqueue ri ty bm)
  have "pendingCount (addItemInTransferQueue env ri ty bm st) \<le> Suc (pendingCount st)"
    unfolding pendingCount_nonEmpty addItemInTransferQueue_fields(5) by (rule filter_update_le)
  then show ?thesis
    using assms Enqueue
    by (simp add: bounded_def wellFormed_steps addItemInTransferQueue_fields)
next
  case Drain
  have w: "wellFormed st" using assms by (simp add: bounded_def)
  have "pendingCount (updateDirtyTiles env st) = 0"
    by (simp add: pendingCount_nonEmpty updateDirtyTiles_ring [OF w] filter_empty_conv)
  then show ?thesis
    using assms Drain by (simp add: bounded_def wellFormed_steps updateDirtyTiles_ring)
next
  case SetPendingDiscard
  have w: "length (m_transferQueue st) = m_transferQueueSize st"
    using assms by (simp add: bounded_def wellFormed_def)
  have "pendingCount (setPendingDiscard env st) = pendingCount st"
    by (simp add: pendingCount_nonEmpty setPendingDiscard_fields [OF w] filter_map comp_def)
  then show ?thesis
    using assms SetPendingDiscard w
    by (simp add: bounded_def wellFormed_steps setPendingDiscard_fields)
next
  case CleanupPendingDiscard
  have w: "wellFormed st" using assms by (simp add: bounded_def)
  have "pendingCount (cleanupPendingDiscard env st) \<le> pendingCount st"
    unfolding pendingCount_nonEmpty cleanupPendingDiscard_ring(1) [OF w]
    by (rule filter_map_le) (rule nonEmpty_discardClear)
  then show ?thesis
    using assms CleanupPendingDiscard
    by (simp add: bounded_def wellFormed_steps cleanupPendingDiscard_fields)
qed

lemma bounded_run: "bounded st \<Longrightarrow> bounded (run env ops st)"
  unfolding run_def by (induction ops arbitrary: st) (simp_all add: bounded_step)

lemma init_wellFormed: "wellFormed (TransferQueue_init dflt w m)"
  by (simp add: wellFormed_def TransferQueue_init_def Let_def MINIMAL_SIZE_def EFFICIENT_SIZE_def)

lemma init_bounded: "bounded (TransferQueue_init dflt w m)"
  by (simp add: bounded_def init_wellFormed pendingCount_def)
     (simp add: TransferQueue_init_def Let_def TileTransferData_init_def filter_empty_conv
        nonEmpty_def)

lemma filter_rotate_length: "length (filter P (rotate n xs)) = length (filter P xs)"
proof -
  have "length (filter P (drop m xs @ take m xs)) = length (filter P (take m xs @ drop m xs))" for m
    by (simp only: filter_append length_append add.commute)
  then show ?thesis by (simp add: rotate_drop_take)
qed

lemma count_True: "length (filter (\<lambda>b. b) (replicate a False @ replicate k True)) = k"
  by simp

lemma inOrder_balanced:
  assumes "inOrder st"
  shows "balanced st"
proof -
  obtain k where k: "k \<le> m_transferQueueSize st"
      "m_emptyItemCount st = int (m_transferQueueSize st) - int k"
      "map nonEmpty (rotate (Suc (m_transferQueueIndex st)) (m_transferQueue st))
                = replicate (m_transferQueueSize st - k) False @ replicate k True"
    using assms by (auto simp: inOrder_def)
  have "pendingCount st
          = length (filter nonEmpty (rotate (Suc (m_transferQueueIndex st)) (m_transferQueue st)))"
    by (simp only: pendingCount_def filter_rotate_length)
  also have "\<dots> = length (filter (\<lambda>b. b)
                 (map nonEmpty (rotate (Suc (m_transferQueueIndex st)) (m_transferQueue st))))"
    by (simp add: filter_map comp_def)
  also have "\<dots> = k"
    unfolding k(3) by (rule count_True)
  finally show ?thesis using k by (simp add: balanced_def)
qed

lemma mod_shift_zero:
  fixes n j N :: nat
  assumes "(n + j) mod N = n mod N" and "j < N"
  shows "j = 0"
proof -
  let ?r = "n mod N"
  have r: "?r < N" using assms(2) by simp
  have eq: "(?r + j) mod N = ?r" using assms(1) by (simp add: mod_add_left_eq)
  show ?thesis
  proof (cases "?r + j < N")
    case True
    then show ?thesis using eq by simp
  next
    case False
    then have "(?r + j) mod N = (?r + j - N) mod N" by (simp add: le_mod_geq)
    also have "\<dots> = ?r + j - N" using r assms(2) by (intro mod_less) arith
    finally show ?thesis using eq False assms(2) by arith
  qed
qed

lemma rotate_update:
  assumes "xs \<noteq> []"
  shows "rotate n (xs[n mod length xs := v]) = (rotate n xs)[0 := v]"
proof (rule nth_equalityI)
  show "length (rotate n (xs[n mod length xs := v])) = length ((rotate n xs)[0 := v])"
    by simp
next
  fix j assume "j < length (rotate n (xs[n mod length xs := v]))"
  then have j: "j < length xs" by simp
  have N: "0 < length xs" using assms by simp
  have e: "((n + j) mod length xs = n mod length xs) = (j = 0)"
    using mod_shift_zero [of n j "length xs"] j by auto
  then have e': "(n mod length xs = (n + j) mod length xs) = (j = 0)" by auto
  show "rotate n (xs[n mod length xs := v]) ! j = (rotate n xs)[0 := v] ! j"
    using j N e e' by (simp add: nth_rotate nth_list_update)
qed

lemma all_False_replicate: "\<forall>x \<in> set xs. \<not> P x \<Longrightarrow> map P xs = replicate (length xs) False"
  by (induction xs) simp_all

lemma init_inOrder: "inOrder (TransferQueue_init dflt w m)"
proof -
  let ?st = "TransferQueue_init dflt w m :: 'a TransferQueue"
  let ?r = "rotate (Suc (m_transferQueueIndex ?st)) (m_transferQueue ?st)"
  have e: "\<forall>x \<in> set ?r. \<not> nonEmpty x"
    by (auto simp: TransferQueue_init_def Let_def TileTransferData_init_def nonEmpty_def)
  have l: "length ?r = m_transferQueueSize ?st"
    using init_wellFormed [of dflt w m] by (simp add: wellFormed_def)
  have "map nonEmpty ?r = replicate (m_transferQueueSize ?st - 0) False @ replicate 0 True"
    using all_False_replicate [of ?r nonEmpty, OF e] l by simp
  moreover have "m_emptyItemCount ?st = int (m_transferQueueSize ?st) - int 0"
    by (simp add: TransferQueue_init_def Let_def)
  ultimately show ?thesis
    unfolding inOrder_def using init_wellFormed [of dflt w m] by blast
qed

lemma drain_inOrder:
  assumes w: "wellFormed st"
  shows "inOrder (updateDirtyTiles env st)"
proof -
  let ?s = "updateDirtyTiles env st"
  note f = updateDirtyTiles_ring [OF w, of env]
  let ?r = "rotate (Suc (m_transferQueueIndex ?s)) (m_transferQueue ?s)"
  have e: "\<forall>x \<in> set ?r. \<not> nonEmpty x"
    by (auto simp: f)
  have l: "length ?r = m_transferQueueSize ?s"
    using w by (simp add: f wellFormed_def)
  have "map nonEmpty ?r = replicate (m_transferQueueSize ?s - 0) False @ replicate 0 True"
    using all_False_replicate [of ?r nonEmpty, OF e] l by simp
  moreover have "m_emptyItemCount ?s = int (m_transferQueueSize ?s) - int 0"
    by (simp add: f)
  ultimately show ?thesis
    unfolding inOrder_def using wellFormed_steps(2) [OF w, of env] by blast
qed

lemma setPendingDiscard_inOrder:
  assumes "inOrder st"
  shows "inOrder (setPendingDiscard env st)"
proof -
  let ?s = "setPendingDiscard env st"
  have w: "wellFormed st" and len: "length (m_transferQueue st) = m_transferQueueSize st"
    using assms by (simp_all add: inOrder_def wellFormed_def)
  obtain k where k: "k \<le> m_transferQueueSize st"
      "m_emptyItemCount st = int (m_transferQueueSize st) - int k"
      "map nonEmpty (rotate (Suc (m_transferQueueIndex st)) (m_transferQueue st))
         = replicate (m_transferQueueSize st - k) False @ replicate k True"
    using assms by (auto simp: inOrder_def)
  note f = setPendingDiscard_fields [OF len, of env]
  have h: "map nonEmpty (rotate n (map discardStatus q)) = map nonEmpty (rotate n q)" for n q
    by (simp add: rotate_map comp_def)
  have m: "map nonEmpty (rotate (Suc (m_transferQueueIndex ?s)) (m_transferQueue ?s))
         = replicate (m_transferQueueSize ?s - k) False @ replicate k True"
    by (simp only: f(1) f(5) f(6) h k(3))
  have c: "m_emptyItemCount ?s = int (m_transferQueueSize ?s) - int k"
    by (simp only: f(5) f(7) k(2))
  have "k \<le> m_transferQueueSize ?s" by (simp only: f(5) k(1))
  then show ?thesis
    unfolding inOrder_def using m c wellFormed_steps(3) [OF w, of env] by blast
qed

lemma enqueue_inOrder:
  assumes o: "inOrder st" and c: "0 < m_emptyItemCount st"
  shows "inOrder (addItemInTransferQueue env ri ty bm st)"
proof -
  let ?N = "m_transferQueueSize st"
  let ?i = "m_transferQueueIndex st"
  let ?q = "m_transferQueue st"
  let ?s = "addItemInTransferQueue env ri ty bm st"
  let ?v = "writtenSlot env ri ty bm st"
  have w: "wellFormed st" using o by (simp add: inOrder_def)
  then have len: "length ?q = ?N" and N: "0 < ?N" and ne: "?q \<noteq> []"
    by (auto simp: wellFormed_def)
  obtain k where k: "k \<le> ?N" "m_emptyItemCount st = int ?N - int k"
      "map nonEmpty (rotate (Suc ?i) ?q) = replicate (?N - k) False @ replicate k True"
    using o by (auto simp: inOrder_def)
  have kN: "k < ?N" using c k by simp
  note f = addItemInTransferQueue_fields [of env ri ty bm st]
  let ?r = "rotate (Suc ?i) ?q"
  have r_ne: "?r \<noteq> []" using ne by simp
  have "rotate (Suc (Suc ?i mod ?N)) (m_transferQueue ?s)
          = rotate 1 (rotate (Suc ?i mod ?N) (?q[Suc ?i mod ?N := ?v]))"
    by (simp add: f(5))
  also have "rotate (Suc ?i mod ?N) (?q[Suc ?i mod ?N := ?v]) = rotate (Suc ?i) (?q[Suc ?i mod ?N := ?v])"
    using rotate_conv_mod [of "Suc ?i" "?q[Suc ?i mod ?N := ?v]"] len by simp
  also have "\<dots> = ?r[0 := ?v]"
    using rotate_update [OF ne, of "Suc ?i" ?v] len by simp
  also have "rotate 1 (?r[0 := ?v]) = tl ?r @ [?v]"
    using r_ne by (cases ?r) simp_all
  finally have rot: "rotate (Suc (Suc ?i mod ?N)) (m_transferQueue ?s) = tl ?r @ [?v]" .
  have "map nonEmpty (tl ?r @ [?v]) = tl (map nonEmpty ?r) @ [True]"
    using f(6) by (simp add: map_tl)
  also have "\<dots> = tl (replicate (?N - k) False @ replicate k True) @ [True]"
    by (simp only: k(3))
  also have "\<dots> = replicate (?N - Suc k) False @ replicate (Suc k) True"
  proof -
    obtain a where a: "?N - k = Suc a" using kN by (cases "?N - k") simp_all
    then have "?N - Suc k = a" by simp
    then show ?thesis using a by (simp add: replicate_append_same)
  qed
  finally have m: "map nonEmpty (rotate (Suc (Suc ?i mod ?N)) (m_transferQueue ?s))
                     = replicate (?N - Suc k) False @ replicate (Suc k) True"
    using rot by simp
  have cnt: "m_emptyItemCount ?s = int ?N - int (Suc k)"
    using k by (simp add: f)
  have "Suc k \<le> ?N" using kN by simp
  then show ?thesis
    unfolding inOrder_def using m cnt wellFormed_steps(1) [OF w, of env ri ty bm]
    by (auto simp: f(1) f(2))
qed

lemma admitted_inOrder:
  "admitted env ops st \<Longrightarrow> inOrder st \<Longrightarrow> inOrder (run env ops st)"
proof (induction ops arbitrary: st)
  case Nil
  then show ?case by (simp add: run_def)
next
  case (Cons op ops)
  have w: "wellFormed st" using Cons.prems(2) by (simp add: inOrder_def)
  have "inOrder (apply_op env op st) \<and> admitted env ops (apply_op env op st)"
  proof (cases op)
    case (Enqueue ri ty bm)
    then show ?thesis using Cons.prems by (simp add: enqueue_inOrder)
  next
    case Drain
    then show ?thesis using Cons.prems w by (simp add: drain_inOrder)
  next
    case SetPendingDiscard
    then show ?thesis using Cons.prems by (simp add: setPendingDiscard_inOrder)
  next
    case CleanupPendingDiscard
    then show ?thesis using Cons.prems by simp
  qed
  then have "inOrder (run env ops (apply_op env op st))"
    using Cons.IH by blast
  then show ?case by (simp add: run_def)
qed

text \<open>
  C3 (as amended). After every sequence of enqueue, drain, \<open>setPendingDiscard\<close> and
  \<open>cleanupPendingDiscard\<close> operations on the freshly constructed queue,
  \<open>m_emptyItemCount\<close> plus the number of ring slots that are PendingUpload or
  PendingDiscard is at most the ring capacity. It equals the capacity after every
  admitted sequence: every enqueue made with a positive empty-slot count, and
  \<open>cleanupPendingDiscard\<close> run only inside a drain.
\<close>

theorem count_invariant:
  "m_emptyItemCount (run env ops (TransferQueue_init dflt w m))
     + int (pendingCount (run env ops (TransferQueue_init dflt w m)))
     \<le> int (m_transferQueueSize (run env ops (TransferQueue_init dflt w m)))
   \<and> (admitted env ops (TransferQueue_init dflt w m) \<longrightarrow>
        m_emptyItemCount (run env ops (TransferQueue_init dflt w m))
          + int (pendingCount (run env ops (TransferQueue_init dflt w m)))
          = int (m_transferQueueSize (run env ops (TransferQueue_init dflt w m))))"
proof -
  have "bounded (run env ops (TransferQueue_init dflt w m))"
    using init_bounded by (rule bounded_run)
  moreover have "balanced (run env ops (TransferQueue_init dflt w m))"
    if "admitted env ops (TransferQueue_init dflt w m)"
    using admitted_inOrder [OF that init_inOrder] by (rule inOrder_balanced)
  ultimately show ?thesis by (simp add: bounded_def balanced_def)
qed

theorem count_invariant_witness:
  "admitted demo_env
     [Enqueue (demo_info 1) CpuUpload (Some demo_bitmap), SetPendingDiscard, Drain,
      Enqueue (demo_info 2) CpuUpload (Some demo_bitmap)]
     (TransferQueue_init CpuUpload () True)
   \<and> m_emptyItemCount (run demo_env
         [Enqueue (demo_info 1) CpuUpload (Some demo_bitmap), SetPendingDiscard, Drain,
          Enqueue (demo_info 2) CpuUpload (Some demo_bitmap)]
         (TransferQueue_init CpuUpload () True))
       + int (pendingCount (run demo_env
         [Enqueue (demo_info 1) CpuUpload (Some demo_bitmap), SetPendingDiscard, Drain,
          Enqueue (demo_info 2) CpuUpload (Some demo_bitmap)]
         (TransferQueue_init CpuUpload () True)))
       = int (m_transferQueueSize (run demo_env
         [Enqueue (demo_info 1) CpuUpload (Some demo_bitmap), SetPendingDiscard, Drain,
          Enqueue (demo_info 2) CpuUpload (Some demo_bitmap)]
         (TransferQueue_init CpuUpload () True)))"
proof -
  let ?ops = "[Enqueue (demo_info 1) CpuUpload (Some demo_bitmap), SetPendingDiscard, Drain,
          Enqueue (demo_info 2) CpuUpload (Some demo_bitmap)]"
  have a: "admitted demo_env ?ops (TransferQueue_init CpuUpload () True)"
    by (simp add: TransferQueue_init_def MINIMAL_SIZE_def TileTransferData_init_def
        model_defs demo_defs)
  from count_invariant [of demo_env ?ops CpuUpload "()" True] a show ?thesis by blast
qed

text \<open>
  C3 as stated fails: \<open>cleanupPendingDiscard\<close> empties the PendingDiscard slots and
  leaves \<open>m_emptyItemCount\<close> as it is. After an enqueue, \<open>setPendingDiscard\<close> and
  \<open>cleanupPendingDiscard\<close> (the sequence \<open>emptyQueue\<close> runs) on a queue of capacity one,
  the count is 0 and no slot is pending.
\<close>

theorem emptyQueue_count_counterexample:
  "\<not> balanced (run demo_env [Enqueue (demo_info 1) CpuUpload (Some demo_bitmap), SetPendingDiscard,
                               CleanupPendingDiscard] (TransferQueue_init CpuUpload () True))"
  by (simp add: run_def balanced_def pendingCount_def nonEmpty_def TransferQueue_init_def
      MINIMAL_SIZE_def TileTransferData_init_def model_defs demo_defs)

section \<open>Advancing the shared surface\<close>

text \<open>
  C4. In one drain cycle (\<open>updateDirtyTiles\<close>, which starts with
  \<open>cleanupPendingDiscard\<close>) on a well-formed queue, the number of \<open>updateTexImage\<close>
  calls is the number of ring slots whose upload type is \<open>GpuUpload\<close> and whose status is
  PendingUpload or PendingDiscard: one call for each such slot, whether the slot is stale
  or discarded, and none for a \<open>CpuUpload\<close> slot or an Empty one. Each visit of a slot,
  by discard resolution or by the ring walk, makes exactly one such call when the slot is
  a \<open>GpuUpload\<close> slot in the status the loop resolves, and none otherwise.
\<close>

theorem updateDirtyTiles_updateTexImage_count:
  assumes "wellFormed st"
  shows "count_list (events (updateDirtyTiles env st)) UpdateTexImage
           = count_list (events st) UpdateTexImage
             + length (filter (\<lambda>d. uploadType d = GpuUpload
                                    \<and> (status d = pendingBlit \<or> status d = pendingDiscard))
                 (m_transferQueue st))
       \<and> (\<forall>i s. count_list (events (cleanupPendingDiscard_body env i s)) UpdateTexImage
                   = count_list (events s) UpdateTexImage
                     + (if status (m_transferQueue s ! i) = pendingDiscard
                           \<and> uploadType (m_transferQueue s ! i) = GpuUpload then 1 else 0))
       \<and> (\<forall>i u s. count_list (events (snd (updateDirtyTiles_body env i (u, s)))) UpdateTexImage
                   = count_list (events s) UpdateTexImage
                     + (if status (m_transferQueue s ! i) = pendingBlit
                           \<and> uploadType (m_transferQueue s ! i) = GpuUpload then 1 else 0))"
proof -
  have h: "(status d \<noteq> emptyItem) = (status d = pendingBlit \<or> status d = pendingDiscard)"
    for d :: TileTransferData
    by (cases "status d") simp_all
  have total: "count_list (events (updateDirtyTiles env st)) UpdateTexImage
           = count_list (events st) UpdateTexImage
             + length (filter (\<lambda>d. uploadType d = GpuUpload
                                    \<and> (status d = pendingBlit \<or> status d = pendingDiscard))
                 (m_transferQueue st))"
    using updateDirtyTiles_texImage [OF assms, of env] by (simp add: texImageCount_def h)
  have discard: "count_list (events (cleanupPendingDiscard_body env i s)) UpdateTexImage
                   = count_list (events s) UpdateTexImage
                     + (if status (m_transferQueue s ! i) = pendingDiscard
                           \<and> uploadType (m_transferQueue s ! i) = GpuUpload then 1 else 0)" for i s
    using cleanupPendingDiscard_body_texImage [of env i s] by (simp add: texImageCount_def)
  have upload: "count_list (events (snd (updateDirtyTiles_body env i (u, s)))) UpdateTexImage
                   = count_list (events s) UpdateTexImage
                     + (if status (m_transferQueue s ! i) = pendingBlit
                           \<and> uploadType (m_transferQueue s ! i) = GpuUpload then 1 else 0)" for i u s
    using updateDirtyTiles_body_texImage [of env i "(u, s)"] by (simp add: texImageCount_def)
  show ?thesis using total discard upload by blast
qed

theorem updateDirtyTiles_updateTexImage_count_witness:
  "wellFormed (demo_queue [demo_slot pendingDiscard GpuUpload 1, demo_slot pendingDiscard CpuUpload 2,
                           demo_slot pendingBlit GpuUpload 3, demo_slot pendingBlit CpuUpload 4,
                           demo_slot emptyItem GpuUpload 0, demo_slot emptyItem GpuUpload 0] 3 [])
   \<and> count_list (events (updateDirtyTiles demo_env
        (demo_queue [demo_slot pendingDiscard GpuUpload 1, demo_slot pendingDiscard CpuUpload 2,
                     demo_slot pendingBlit GpuUpload 3, demo_slot pendingBlit CpuUpload 4,
                     demo_slot emptyItem GpuUpload 0, demo_slot emptyItem GpuUpload 0] 3 [])))
        UpdateTexImage = 2"
proof -
  let ?st = "demo_queue [demo_slot pendingDiscard GpuUpload 1, demo_slot pendingDiscard CpuUpload 2,
                     demo_slot pendingBlit GpuUpload 3, demo_slot pendingBlit CpuUpload 4,
                     demo_slot emptyItem GpuUpload 0, demo_slot emptyItem GpuUpload 0] 3 []"
  have w: "wellFormed ?st"
    by (simp add: wellFormed_def demo_queue_def)
  have "count_list (events (updateDirtyTiles demo_env ?st)) UpdateTexImage
           = count_list (events ?st) UpdateTexImage
             + length (filter (\<lambda>d. uploadType d = GpuUpload
                                    \<and> (status d = pendingBlit \<or> status d = pendingDiscard))
                 (m_transferQueue ?st))"
    using updateDirtyTiles_updateTexImage_count [OF w, of demo_env] by blast
  then show ?thesis
    using w by (simp add: demo_queue_def demo_slot_def events_def)
qed

section \<open>Acquire, write, enqueue\<close>

text \<open>
  C5. Let \<open>readyForUpdate\<close> return the flag \<open>ready\<close> and the queue \<open>st1\<close>
  (which is the queue on entry unless the producer waited). Then
  \<open>tryUpdateQueueWithBitmap\<close> returns. It returns false, with the ring, the write index and
  the empty-slot count of \<open>st1\<close> unchanged, when readiness was denied, or the upload type
  is \<open>GpuUpload\<close> and the native-window handle is null, or the write into the shared
  surface failed. Otherwise it returns true, the write index has advanced by one modulo
  the capacity, the count has dropped by one, and the ring differs from that of \<open>st1\<close>
  in the slot at the new index only. That slot is PendingUpload and holds the request:
  its destination is the request's tile, its expected texture is that tile's current
  back texture, its upload type is the current one, its dirty region is the request's
  rectangle (empty when there is none), and for a direct upload its payload is the
  bitmap.
\<close>

theorem tryUpdateQueueWithBitmap_outcome:
  assumes "readyForUpdate env others st = Some (ready, st1)"
  shows "(case tryUpdateQueueWithBitmap env others renderInfo bm st of
            None \<Rightarrow> False
          | Some (ok, st2) \<Rightarrow>
              ok = (\<not> enqueueDenied env ready bm st1)
              \<and> (if enqueueDenied env ready bm st1
                  then m_transferQueue st2 = m_transferQueue st1
                       \<and> m_transferQueueIndex st2 = m_transferQueueIndex st1
                       \<and> m_emptyItemCount st2 = m_emptyItemCount st1
                  else m_transferQueueIndex st2
                         = (m_transferQueueIndex st1 + 1) mod m_transferQueueSize st1
                       \<and> m_emptyItemCount st2 = m_emptyItemCount st1 - 1
                       \<and> m_transferQueue st2
                           = (m_transferQueue st1)
                               [m_transferQueueIndex st2 :=
                                  (m_transferQueue st1 ! m_transferQueueIndex st2)
                                    \<lparr>savedTileTexturePtr :=
                                       tile_backTexture env (world st2) (baseTile renderInfo),
                                     savedTilePtr := baseTile renderInfo,
                                     status := pendingBlit,
                                     uploadType := m_currentUploadType st1,
                                     invalRect :=
                                       (case ri_invalRect renderInfo of
                                          None \<Rightarrow> IntRect 0 0 0 0
                                        | Some r \<Rightarrow>
                                            IntRect (fLeft r) (fTop r)
                                              (wrap32 (fRight r - fLeft r))
                                              (wrap32 (fBottom r - fTop r))),
                                     bitmap :=
                                       (if m_currentUploadType st1 = CpuUpload then Some bm
                                        else bitmap (m_transferQueue st1 ! m_transferQueueIndex st2))\<rparr>]
                       \<and> (m_transferQueueIndex st2 < length (m_transferQueue st1) \<longrightarrow>
                            status (m_transferQueue st2 ! m_transferQueueIndex st2) = pendingBlit
                            \<and> savedTilePtr (m_transferQueue st2 ! m_transferQueueIndex st2)
                                = baseTile renderInfo
                            \<and> savedTileTexturePtr (m_transferQueue st2 ! m_transferQueueIndex st2)
                                = tile_backTexture env (world st2) (baseTile renderInfo)
                            \<and> uploadType (m_transferQueue st2 ! m_transferQueueIndex st2)
                                = m_currentUploadType st1
                            \<and> (m_currentUploadType st1 = CpuUpload \<longrightarrow>
                                 bitmap (m_transferQueue st2 ! m_transferQueueIndex st2) = Some bm))
                       \<and> (\<forall>j. j \<noteq> m_transferQueueIndex st2 \<longrightarrow>
                              m_transferQueue st2 ! j = m_transferQueue st1 ! j)
                       \<and> length (m_transferQueue st2) = length (m_transferQueue st1)))
       \<and> (m_emptyItemCount st \<noteq> 0 \<or> \<not> m_hasGLContext st \<or> m_interruptedByRemovingOp st
            \<longrightarrow> st1 = st)"
proof -
  have a: "m_emptyItemCount st \<noteq> 0 \<or> \<not> m_hasGLContext st \<or> m_interruptedByRemovingOp st
            \<longrightarrow> st1 = st"
    using assms
    by (auto simp: readyForUpdate_def readyForUpdate_afterWait_def getHasGLContext_def
        split: if_splits)
  show ?thesis
    using assms a
    by (cases "m_currentUploadType st1")
       (simp_all add: tryUpdateQueueWithBitmap_def enqueueDenied_def Let_def
          addItemInTransferQueue_def addItemCommon_def irect_width_def irect_height_def
          cong: option.case_cong)
qed

theorem tryUpdateQueueWithBitmap_outcome_witness:
  "readyForUpdate demo_env (\<lambda>s. None) (fresh1 CpuUpload) = Some (True, fresh1 CpuUpload)
   \<and> (case tryUpdateQueueWithBitmap demo_env (\<lambda>s. None) (demo_info 1) demo_bitmap (fresh1 CpuUpload) of
         None \<Rightarrow> False
       | Some (ok, st2) \<Rightarrow>
           ok \<and> m_transferQueueIndex st2 = 0 \<and> m_emptyItemCount st2 = 0
           \<and> m_transferQueue st2
               = [\<lparr>status = pendingBlit, savedTilePtr = 1, savedTileTexturePtr = 101,
                   uploadType = CpuUpload, bitmap = Some demo_bitmap,
                   invalRect = IntRect 0 0 0 0, pureColor = 0\<rparr>])"
proof -
  have r: "readyForUpdate demo_env (\<lambda>s. None) (fresh1 CpuUpload) = Some (True, fresh1 CpuUpload)"
    by (simp add: model_defs fresh1_def TransferQueue_init_def MINIMAL_SIZE_def)
  from tryUpdateQueueWithBitmap_outcome [OF r, where renderInfo = "demo_info 1" and bm = demo_bitmap]
  show ?thesis
    using r
    by (auto simp: enqueueDenied_def fresh1_def
        TransferQueue_init_def MINIMAL_SIZE_def demo_info_def TileTransferData_init_def
        demo_env_def static_env_def
        split: option.splits)
qed

section \<open>Shutdown and strategy switch\<close>

text \<open>
  C6. One call of \<open>setPendingDiscard\<close> on a queue whose ring has its declared capacity
  turns every PendingUpload slot into PendingDiscard and leaves every other slot as it
  is, empties the side queue, marks the context not live, and signals the admission
  condition once if the context was live before the call and not at all otherwise.
\<close>

theorem setPendingDiscard_effect:
  assumes "length (m_transferQueue st) = m_transferQueueSize st"
  shows "m_transferQueue (setPendingDiscard env st) = map discardStatus (m_transferQueue st)
       \<and> m_pureColorTileQueue (setPendingDiscard env st) = []
       \<and> \<not> m_hasGLContext (setPendingDiscard env st)
       \<and> events (setPendingDiscard env st)
           = events st @ (if m_hasGLContext st then [CondSignal] else [])"
  using setPendingDiscard_fields [OF assms] by simp

theorem setPendingDiscard_effect_witness:
  "length (m_transferQueue
     (addItemInTransferQueue demo_env (demo_info 1) CpuUpload (Some demo_bitmap) (fresh1 CpuUpload)))
     = m_transferQueueSize
         (addItemInTransferQueue demo_env (demo_info 1) CpuUpload (Some demo_bitmap) (fresh1 CpuUpload))
   \<and> map status (m_transferQueue (setPendingDiscard demo_env
        (addItemInTransferQueue demo_env (demo_info 1) CpuUpload (Some demo_bitmap) (fresh1 CpuUpload))))
       = [pendingDiscard]
   \<and> events (setPendingDiscard demo_env
        (addItemInTransferQueue demo_env (demo_info 1) CpuUpload (Some demo_bitmap) (fresh1 CpuUpload)))
       = [CondSignal]"
proof -
  let ?st = "addItemInTransferQueue demo_env (demo_info 1) CpuUpload (Some demo_bitmap) (fresh1 CpuUpload)"
  have len: "length (m_transferQueue ?st) = m_transferQueueSize ?st"
    by (simp add: addItemInTransferQueue_def fresh1_def TransferQueue_init_def MINIMAL_SIZE_def Let_def)
  have q: "map status (m_transferQueue ?st) = [pendingBlit]"
    by (simp add: addItemInTransferQueue_def addItemCommon_def fresh1_def TransferQueue_init_def
        MINIMAL_SIZE_def Let_def)
  have e: "events ?st = []" "m_hasGLContext ?st"
    by (simp_all add: addItemInTransferQueue_def fresh1_def TransferQueue_init_def events_def Let_def)
  from setPendingDiscard_effect [OF len, of demo_env]
  have "map status (m_transferQueue (setPendingDiscard demo_env ?st))
          = map (status \<circ> discardStatus) (m_transferQueue ?st)"
    and "events (setPendingDiscard demo_env ?st) = [CondSignal]"
    using e by simp_all
  moreover have "map (status \<circ> discardStatus) (m_transferQueue ?st) = [pendingDiscard]"
    using q by (cases "m_transferQueue ?st") (auto simp: discardStatus_def)
  ultimately show ?thesis using len by simp
qed

section \<open>Switching the upload strategy\<close>

lemma cleanupPendingDiscard_body_events:
  assumes "status (m_transferQueue s ! i) = pendingDiscard"
  shows "events (cleanupPendingDiscard_body env i s)
     = events s
       @ (if uploadType (m_transferQueue s ! i) = GpuUpload then [UpdateTexImage] else [])
       @ (if savedTilePtr (m_transferQueue s ! i) \<noteq> 0
             \<and> savedTileTexturePtr (m_transferQueue s ! i) \<noteq> 0
             \<and> texture_owner env
                  (if uploadType (m_transferQueue s ! i) = GpuUpload
                   then effect env UpdateTexImage (world s) else world s)
                  (savedTileTexturePtr (m_transferQueue s ! i))
                 = savedTilePtr (m_transferQueue s ! i)
          then [DiscardBackTexture (savedTilePtr (m_transferQueue s ! i))] else [])"
  using assms by (simp add: cleanupPendingDiscard_body_def Let_def)

lemma map_uploadType_discardStatus: "map uploadType (map discardStatus q) = map uploadType q"
  by (induction q) (simp_all add: discardStatus_def)

lemma no_pendingBlit_discardStatus: "d \<in> set (map discardStatus q) \<Longrightarrow> status d \<noteq> pendingBlit"
  by (auto simp: discardStatus_def)

lemma tryUpdate_without_context:
  "\<not> m_hasGLContext st \<Longrightarrow>
   tryUpdateQueueWithBitmap env others renderInfo bm st = Some (False, st)"
  by (simp add: tryUpdateQueueWithBitmap_def readyForUpdate_def getHasGLContext_def)

text \<open>
  C7 (as amended). On a well-formed queue, \<open>setTextureUploadType\<close> with the current type
  changes nothing. With a different type it applies \<open>setPendingDiscard\<close> and then sets
  the default type: every PendingUpload slot becomes PendingDiscard, the side queue is
  emptied, the context is marked not live, no slot changes its upload type, no slot is
  PendingUpload, and \<open>tryUpdateQueueWithBitmap\<close> is refused without enqueuing. The drain
  that follows begins with discard resolution. Walking the ring from the oldest index,
  discard resolution makes exactly the calls of \<open>discardTrace\<close>: for each displaced slot
  it calls \<open>discardBackTexture\<close> on the destination if and only if, at that moment, the
  destination and the expected texture are non-null and the texture's owner is that
  destination; it leaves every displaced slot Empty. When it ends the context is still
  not live and an enqueue is still refused; only the rest of the drain marks the context
  live.
\<close>

theorem setTextureUploadType_effect:
  assumes wf: "wellFormed st"
  shows "(m_currentUploadType st = type \<longrightarrow> setTextureUploadType env type st = st)
     \<and> (m_currentUploadType st \<noteq> type \<longrightarrow>
          setTextureUploadType env type st = (setPendingDiscard env st)\<lparr>m_currentUploadType := type\<rparr>
          \<and> m_transferQueue (setTextureUploadType env type st) = map discardStatus (m_transferQueue st)
          \<and> m_pureColorTileQueue (setTextureUploadType env type st) = []
          \<and> \<not> m_hasGLContext (setTextureUploadType env type st)
          \<and> m_currentUploadType (setTextureUploadType env type st) = type
          \<and> map uploadType (m_transferQueue (setTextureUploadType env type st))
              = map uploadType (m_transferQueue st)
          \<and> (\<forall>d \<in> set (m_transferQueue (setTextureUploadType env type st)). status d \<noteq> pendingBlit)
          \<and> tryUpdateQueueWithBitmap env others renderInfo bm (setTextureUploadType env type st)
              = Some (False, setTextureUploadType env type st)
          \<and> events (cleanupPendingDiscard env (setTextureUploadType env type st))
              = events (setTextureUploadType env type st)
                @ fst (discardTrace env (world (setTextureUploadType env type st))
                         (rotate (getNextTransferQueueIndex st)
                            (map discardStatus (m_transferQueue st))))
          \<and> m_transferQueue (cleanupPendingDiscard env (setTextureUploadType env type st))
              = map (discardClear \<circ> discardStatus) (m_transferQueue st)
          \<and> \<not> m_hasGLContext (cleanupPendingDiscard env (setTextureUploadType env type st))
          \<and> tryUpdateQueueWithBitmap env others renderInfo bm
                (cleanupPendingDiscard env (setTextureUploadType env type st))
              = Some (False, cleanupPendingDiscard env (setTextureUploadType env type st))
          \<and> take (length (events (cleanupPendingDiscard env (setTextureUploadType env type st))))
                (events (updateDirtyTiles env (setTextureUploadType env type st)))
              = events (cleanupPendingDiscard env (setTextureUploadType env type st))
          \<and> m_hasGLContext (updateDirtyTiles env (setTextureUploadType env type st)))
     \<and> (\<forall>s i. i < length (m_transferQueue s) \<and> status (m_transferQueue s ! i) = pendingDiscard \<longrightarrow>
          status (m_transferQueue (cleanupPendingDiscard_body env i s) ! i) = emptyItem
          \<and> (DiscardBackTexture (savedTilePtr (m_transferQueue s ! i))
                \<in> set (drop (length (events s)) (events (cleanupPendingDiscard_body env i s)))
              \<longleftrightarrow>
              savedTilePtr (m_transferQueue s ! i) \<noteq> 0
              \<and> savedTileTexturePtr (m_transferQueue s ! i) \<noteq> 0
              \<and> texture_owner env
                   (if uploadType (m_transferQueue s ! i) = GpuUpload
                    then effect env UpdateTexImage (world s) else world s)
                   (savedTileTexturePtr (m_transferQueue s ! i))
                  = savedTilePtr (m_transferQueue s ! i)))"
proof -
  let ?s = "setTextureUploadType env type st"
  have len: "length (m_transferQueue st) = m_transferQueueSize st"
    using wf by (simp add: wellFormed_def)
  have a: "m_currentUploadType st = type \<longrightarrow> ?s = st"
    by (simp add: setTextureUploadType_def)
  have b: "?s = (setPendingDiscard env st)\<lparr>m_currentUploadType := type\<rparr>"
    if "m_currentUploadType st \<noteq> type"
    using that by (simp add: setTextureUploadType_def)
  note f = setPendingDiscard_fields [OF len, of env]
  have c: "m_transferQueue ?s = map discardStatus (m_transferQueue st)
          \<and> m_pureColorTileQueue ?s = []
          \<and> \<not> m_hasGLContext ?s
          \<and> m_currentUploadType ?s = type
          \<and> map uploadType (m_transferQueue ?s) = map uploadType (m_transferQueue st)
          \<and> (\<forall>d \<in> set (m_transferQueue ?s). status d \<noteq> pendingBlit)
          \<and> tryUpdateQueueWithBitmap env others renderInfo bm ?s = Some (False, ?s)
          \<and> events (cleanupPendingDiscard env ?s)
              = events ?s
                @ fst (discardTrace env (world ?s)
                         (rotate (getNextTransferQueueIndex st)
                            (map discardStatus (m_transferQueue st))))
          \<and> m_transferQueue (cleanupPendingDiscard env ?s)
              = map (discardClear \<circ> discardStatus) (m_transferQueue st)
          \<and> \<not> m_hasGLContext (cleanupPendingDiscard env ?s)
          \<and> tryUpdateQueueWithBitmap env others renderInfo bm (cleanupPendingDiscard env ?s)
              = Some (False, cleanupPendingDiscard env ?s)
          \<and> take (length (events (cleanupPendingDiscard env ?s))) (events (updateDirtyTiles env ?s))
              = events (cleanupPendingDiscard env ?s)
          \<and> m_hasGLContext (updateDirtyTiles env ?s)"
    if neq: "m_currentUploadType st \<noteq> type"
  proof -
    have q: "m_transferQueue ?s = map discardStatus (m_transferQueue st)"
      and p: "m_pureColorTileQueue ?s = []"
      and g: "\<not> m_hasGLContext ?s"
      and t: "m_currentUploadType ?s = type"
      and n: "m_transferQueueSize ?s = m_transferQueueSize st"
      and i: "m_transferQueueIndex ?s = m_transferQueueIndex st"
      using f by (simp_all add: b [OF neq])
    have ws: "wellFormed ?s"
      using wf by (simp add: wellFormed_def q n)
    have nx: "getNextTransferQueueIndex ?s = getNextTransferQueueIndex st"
      by (simp add: getNextTransferQueueIndex_def n i)
    have u: "map uploadType (m_transferQueue ?s) = map uploadType (m_transferQueue st)"
      unfolding q by (rule map_uploadType_discardStatus)
    have nb: "\<forall>d \<in> set (m_transferQueue ?s). status d \<noteq> pendingBlit"
      unfolding q using no_pendingBlit_discardStatus by blast
    have r: "tryUpdateQueueWithBitmap env others renderInfo bm ?s = Some (False, ?s)"
      using g by (rule tryUpdate_without_context)
    have tr: "events (cleanupPendingDiscard env ?s)
              = events ?s
                @ fst (discardTrace env (world ?s)
                         (rotate (getNextTransferQueueIndex st)
                            (map discardStatus (m_transferQueue st))))"
      using cleanupPendingDiscard_trace [OF ws, of env] by (simp only: nx q)
    have cq: "m_transferQueue (cleanupPendingDiscard env ?s)
              = map (discardClear \<circ> discardStatus) (m_transferQueue st)"
      using cleanupPendingDiscard_ring(1) [OF ws, of env] by (simp add: q)
    have cg: "\<not> m_hasGLContext (cleanupPendingDiscard env ?s)"
      using g by (simp add: cleanupPendingDiscard_fields [OF ws])
    have cr: "tryUpdateQueueWithBitmap env others renderInfo bm (cleanupPendingDiscard env ?s)
              = Some (False, cleanupPendingDiscard env ?s)"
      using cg by (rule tryUpdate_without_context)
    have pre: "take (length (events (cleanupPendingDiscard env ?s))) (events (updateDirtyTiles env ?s))
              = events (cleanupPendingDiscard env ?s)"
      using ws by (rule drain_starts_with_discards)
    have live: "m_hasGLContext (updateDirtyTiles env ?s)"
      by (simp add: updateDirtyTiles_ring [OF ws])
    show ?thesis using q p g t u nb r tr cq cg cr pre live by blast
  qed
  have d: "status (m_transferQueue (cleanupPendingDiscard_body env i s) ! i) = emptyItem"
    if "i < length (m_transferQueue s)" "status (m_transferQueue s ! i) = pendingDiscard" for s i
    using that by (simp add: cleanupPendingDiscard_body_ring discardClear_def)
  have e: "DiscardBackTexture (savedTilePtr (m_transferQueue s ! i))
                \<in> set (drop (length (events s)) (events (cleanupPendingDiscard_body env i s)))
              \<longleftrightarrow>
              savedTilePtr (m_transferQueue s ! i) \<noteq> 0
              \<and> savedTileTexturePtr (m_transferQueue s ! i) \<noteq> 0
              \<and> texture_owner env
                   (if uploadType (m_transferQueue s ! i) = GpuUpload
                    then effect env UpdateTexImage (world s) else world s)
                   (savedTileTexturePtr (m_transferQueue s ! i))
                  = savedTilePtr (m_transferQueue s ! i)"
    if "status (m_transferQueue s ! i) = pendingDiscard" for s i
    by (simp add: cleanupPendingDiscard_body_events [OF that])
  show ?thesis
    using a b c d e by blast
qed

theorem setTextureUploadType_effect_witness:
  "wellFormed (demo_queue [demo_slot pendingBlit GpuUpload 1, demo_slot emptyItem GpuUpload 0] 0
             [demo_slot pendingBlit GpuUpload 3])
   \<and> m_currentUploadType (demo_queue [demo_slot pendingBlit GpuUpload 1, demo_slot emptyItem GpuUpload 0] 0
             [demo_slot pendingBlit GpuUpload 3]) \<noteq> CpuUpload
   \<and> map status (m_transferQueue (setTextureUploadType demo_env CpuUpload
         (demo_queue [demo_slot pendingBlit GpuUpload 1, demo_slot emptyItem GpuUpload 0] 0
             [demo_slot pendingBlit GpuUpload 3]))) = [pendingDiscard, emptyItem]
   \<and> m_pureColorTileQueue (setTextureUploadType demo_env CpuUpload
         (demo_queue [demo_slot pendingBlit GpuUpload 1, demo_slot emptyItem GpuUpload 0] 0
             [demo_slot pendingBlit GpuUpload 3])) = []
   \<and> tryUpdateQueueWithBitmap demo_env (\<lambda>s. None) (demo_info 2) demo_bitmap
         (setTextureUploadType demo_env CpuUpload
           (demo_queue [demo_slot pendingBlit GpuUpload 1, demo_slot emptyItem GpuUpload 0] 0
             [demo_slot pendingBlit GpuUpload 3]))
       = Some (False, setTextureUploadType demo_env CpuUpload
           (demo_queue [demo_slot pendingBlit GpuUpload 1, demo_slot emptyItem GpuUpload 0] 0
             [demo_slot pendingBlit GpuUpload 3]))
   \<and> events (cleanupPendingDiscard demo_env (setTextureUploadType demo_env CpuUpload
           (demo_queue [demo_slot pendingBlit GpuUpload 1, demo_slot emptyItem GpuUpload 0] 0
             [demo_slot pendingBlit GpuUpload 3])))
       = [CondSignal, UpdateTexImage, DiscardBackTexture 1]
   \<and> take 3 (events (updateDirtyTiles demo_env (setTextureUploadType demo_env CpuUpload
           (demo_queue [demo_slot pendingBlit GpuUpload 1, demo_slot emptyItem GpuUpload 0] 0
             [demo_slot pendingBlit GpuUpload 3]))))
       = [CondSignal, UpdateTexImage, DiscardBackTexture 1]"
proof -
  let ?st = "demo_queue [demo_slot pendingBlit GpuUpload 1, demo_slot emptyItem GpuUpload 0] 0
             [demo_slot pendingBlit GpuUpload 3]"
  let ?s = "setTextureUploadType demo_env CpuUpload ?st"
  have w: "wellFormed ?st"
    and neq: "m_currentUploadType ?st \<noteq> CpuUpload"
    by (simp_all add: demo_queue_def wellFormed_def)
  note t = setTextureUploadType_effect [OF w, of CpuUpload demo_env "\<lambda>s. None" "demo_info 2" demo_bitmap]
  have q: "m_transferQueue ?s = map discardStatus (m_transferQueue ?st)"
    and p: "m_pureColorTileQueue ?s = []"
    and r: "tryUpdateQueueWithBitmap demo_env (\<lambda>s. None) (demo_info 2) demo_bitmap ?s = Some (False, ?s)"
    and tr: "events (cleanupPendingDiscard demo_env ?s)
              = events ?s
                @ fst (discardTrace demo_env (world ?s)
                         (rotate (getNextTransferQueueIndex ?st)
                            (map discardStatus (m_transferQueue ?st))))"
    and pre: "take (length (events (cleanupPendingDiscard demo_env ?s)))
                (events (updateDirtyTiles demo_env ?s))
              = events (cleanupPendingDiscard demo_env ?s)"
    using t neq by blast+
  have st: "map status (m_transferQueue ?s) = [pendingDiscard, emptyItem]"
    unfolding q by (simp add: demo_queue_def demo_slot_def discardStatus_def)
  have es: "events ?s = [CondSignal]"
    by (simp add: model_defs demo_defs)
  have dt: "fst (discardTrace demo_env (world ?s)
                         (rotate (getNextTransferQueueIndex ?st)
                            (map discardStatus (m_transferQueue ?st))))
              = [UpdateTexImage, DiscardBackTexture 1]"
    by (simp add: demo_defs discardStatus_def getNextTransferQueueIndex_def Let_def)
  have ec: "events (cleanupPendingDiscard demo_env ?s) = [CondSignal, UpdateTexImage, DiscardBackTexture 1]"
    using tr es dt by simp
  have "take 3 (events (updateDirtyTiles demo_env ?s)) = [CondSignal, UpdateTexImage, DiscardBackTexture 1]"
    using pre ec by (simp add: numeral_3_eq_3)
  with w neq st p r ec show ?thesis by blast
qed

text \<open>
  C7 as stated fails in two places. First, tile 1 is queued with texture 101, the
  strategy is switched, and by the time of the drain texture 101 belongs to tile 9: the
  drain drops the entry without a discard call, and the next enqueue, under the new
  strategy, succeeds. Second, an entry queued under \<open>GpuUpload\<close> is displaced by a switch
  to \<open>CpuUpload\<close>; a switch back to \<open>GpuUpload\<close> before any drain finds that entry still
  queued, and it carries the new kind.
\<close>

theorem setTextureUploadType_counterexample:
  "map status (m_transferQueue (setTextureUploadType (static_env (\<lambda>t. t + 100) (\<lambda>x. 9) True) CpuUpload
      (demo_queue [demo_slot pendingBlit GpuUpload 1] 0 []))) = [pendingDiscard]
   \<and> map savedTilePtr (m_transferQueue (setTextureUploadType (static_env (\<lambda>t. t + 100) (\<lambda>x. 9) True)
      CpuUpload (demo_queue [demo_slot pendingBlit GpuUpload 1] 0 []))) = [1]
   \<and> (case tryUpdateQueueWithBitmap (static_env (\<lambda>t. t + 100) (\<lambda>x. 9) True) (\<lambda>s. None)
             (demo_info 2) demo_bitmap
             (updateDirtyTiles (static_env (\<lambda>t. t + 100) (\<lambda>x. 9) True)
                (setTextureUploadType (static_env (\<lambda>t. t + 100) (\<lambda>x. 9) True) CpuUpload
                   (demo_queue [demo_slot pendingBlit GpuUpload 1] 0 []))) of
         None \<Rightarrow> False
       | Some (ok, st) \<Rightarrow>
           ok \<and> map uploadType (m_transferQueue st) = [CpuUpload]
           \<and> DiscardBackTexture 1 \<notin> set (events st))
   \<and> m_currentUploadType (setTextureUploadType demo_env CpuUpload
        (demo_queue [demo_slot pendingBlit GpuUpload 1] 0 [])) = CpuUpload
   \<and> map status (m_transferQueue (setTextureUploadType demo_env CpuUpload
        (demo_queue [demo_slot pendingBlit GpuUpload 1] 0 []))) = [pendingDiscard]
   \<and> m_currentUploadType (setTextureUploadType demo_env GpuUpload
        (setTextureUploadType demo_env CpuUpload
           (demo_queue [demo_slot pendingBlit GpuUpload 1] 0 []))) = GpuUpload
   \<and> map uploadType (m_transferQueue (setTextureUploadType demo_env GpuUpload
        (setTextureUploadType demo_env CpuUpload
           (demo_queue [demo_slot pendingBlit GpuUpload 1] 0 [])))) = [GpuUpload]
   \<and> map status (m_transferQueue (setTextureUploadType demo_env GpuUpload
        (setTextureUploadType demo_env CpuUpload
           (demo_queue [demo_slot pendingBlit GpuUpload 1] 0 [])))) = [pendingDiscard]"
  by (simp add: model_defs demo_queue_def demo_slot_def demo_info_def demo_env_def static_env_def)

section \<open>Clearing a slot before writing to the GPU\<close>

text \<open>
  When the ring walk processes a PendingUpload slot, every GPU write it makes for that
  slot (texture materialisation, direct bitmap upload, blit) is made with the slot
  already Empty and its destination reference \<open>savedTilePtr\<close> already null, and the
  calls made before the slot was reached are kept.
\<close>

lemma gpu_writes_after_clear:
  assumes i: "index < length (m_transferQueue st)"
      and p: "status (m_transferQueue st ! index) = pendingBlit"
  shows "(\<forall>(c, q) \<in> set (newCalls st (snd (updateDirtyTiles_body env index (u, st)))).
            gpuWrite c \<longrightarrow> status (q ! index) = emptyItem \<and> savedTilePtr (q ! index) = 0)
       \<and> take (length (calls st)) (calls (snd (updateDirtyTiles_body env index (u, st)))) = calls st"
  using i p
  by (auto simp: updateDirtyTiles_body_def Let_def newCalls_def saveGLState_def
      blitTileFromQueue_def)

text \<open>
  C8. The ring walk releases only one of the slot's two captured references. A queue of
  capacity one holds tile 1, enqueued under \<open>CpuUpload\<close> with expected texture 101. The
  walk makes four calls for the slot; at each of them, and when the drain ends, the slot
  is Empty with a null \<open>savedTilePtr\<close>, but \<open>savedTileTexturePtr\<close> is still 101. Discard
  resolution, on the same slot displaced, nulls both references.
\<close>

theorem upload_keeps_texture_reference:
  "map fst (newCalls (demo_queue [demo_slot pendingBlit CpuUpload 1] 0 [])
      (snd (updateDirtyTiles_body demo_env 0
              (False, demo_queue [demo_slot pendingBlit CpuUpload 1] 0 []))))
     = [RequireGLTexture 101, UpdateTextureWithBitmap 101 (Some demo_bitmap) (IntRect 0 0 0 0),
        SetPure 101 False, TransferComplete 101]
   \<and> map (\<lambda>q. (status (q ! 0), savedTilePtr (q ! 0), savedTileTexturePtr (q ! 0)))
        (map snd (newCalls (demo_queue [demo_slot pendingBlit CpuUpload 1] 0 [])
           (snd (updateDirtyTiles_body demo_env 0
                   (False, demo_queue [demo_slot pendingBlit CpuUpload 1] 0 [])))))
     = [(emptyItem, 0, 101), (emptyItem, 0, 101), (emptyItem, 0, 101), (emptyItem, 0, 101)]
   \<and> m_transferQueue (updateDirtyTiles demo_env (demo_queue [demo_slot pendingBlit CpuUpload 1] 0 []))
     = [\<lparr>status = emptyItem, savedTilePtr = 0, savedTileTexturePtr = 101, uploadType = CpuUpload,
         bitmap = Some demo_bitmap, invalRect = IntRect 0 0 0 0, pureColor = 0\<rparr>]
   \<and> m_transferQueue (cleanupPendingDiscard demo_env
        (demo_queue [demo_slot pendingDiscard CpuUpload 1] 0 []))
     = [\<lparr>status = emptyItem, savedTilePtr = 0, savedTileTexturePtr = 0, uploadType = CpuUpload,
         bitmap = Some demo_bitmap, invalRect = IntRect 0 0 0 0, pureColor = 0\<rparr>]"
  by (simp add: newCalls_def model_defs demo_defs)

section \<open>The order of a drain cycle\<close>

lemma ringOrder_next:
  "ringOrder N (Suc i mod N) N = map (\<lambda>k. Suc (i + k) mod N) [0..<N]"
proof -
  have "(Suc i mod N + k) mod N = Suc (i + k) mod N" for k
    by (metis add_Suc mod_add_left_eq)
  then show ?thesis by (simp add: ringOrder_def)
qed

lemma ringOrder_after_enqueue:
  assumes "0 < N"
  shows "ringOrder N (((i + 1) mod N + 1) mod N) N = rotate 1 (ringOrder N ((i + 1) mod N) N)"
proof -
  have "ringOrder N (((i + 1) mod N + 1) mod N) N = rotate (((i + 1) mod N + 1) mod N) [0..<N]"
    using assms by (simp add: ringOrder_full)
  also have "\<dots> = rotate ((i + 1) mod N + 1) [0..<N]"
    using rotate_conv_mod [of "(i + 1) mod N + 1" "[0..<N]"] by simp
  also have "\<dots> = rotate 1 (rotate ((i + 1) mod N) [0..<N])"
    by (simp add: rotate_rotate)
  finally show ?thesis using assms by (simp add: ringOrder_full)
qed

lemma ringOrder_hd: "0 < N \<Longrightarrow> start < N \<Longrightarrow> hd (ringOrder N start N) = start"
  by (cases N) (simp_all add: ringOrder_Suc)

text \<open>
  C9 (as amended). In a drain cycle on a well-formed queue, discard resolution walks the
  ring first. After it, the calls made until the ring walk starts are exactly those the
  side queue asks for, entry by entry in queue order (\<open>setPureColor\<close> and
  \<open>transferComplete\<close> for every PendingUpload entry that is not stale, nothing for the
  others), and they leave the ring as discard resolution left it; every
  call made from then on is not a \<open>setPureColor\<close>: all side-queue entries are processed
  before any ring slot is examined for upload. The ring walk runs the loop body exactly
  \<open>m_transferQueueSize\<close> times, at the indices \<open>(m_transferQueueIndex + 1 + k) mod
  m_transferQueueSize\<close> for \<open>k = 0, 1, \<dots>\<close> in this order. An enqueue writes the slot
  that is first in this order and makes it the last, so slots are visited in the order
  in which they were written. The side queue is empty afterwards.
\<close>

theorem drain_order:
  assumes "wellFormed st"
  shows "events (beforeWalk env st)
           = events (cleanupPendingDiscard env st)
             @ fst (sideQueueTrace env (world (cleanupPendingDiscard env st)) (m_pureColorTileQueue st))
       \<and> extends sideQueueCall (cleanupPendingDiscard env st) (beforeWalk env st)
       \<and> m_transferQueue (beforeWalk env st) = map discardClear (m_transferQueue st)
       \<and> extends (\<lambda>c. \<not> isSetPureColor c) (beforeWalk env st) (updateDirtyTiles env st)
       \<and> updateDirtyTiles env st
           = updateDirtyTiles_finish env
               (foldl (\<lambda>a i. updateDirtyTiles_body env i a) (False, beforeWalk env st)
                  (map (\<lambda>k. (m_transferQueueIndex st + 1 + k) mod m_transferQueueSize st)
                     [0..<m_transferQueueSize st]))
       \<and> m_pureColorTileQueue (updateDirtyTiles env st) = []
       \<and> m_transferQueueIndex (addItemInTransferQueue env renderInfo type bm st)
           = hd (ringOrder (m_transferQueueSize st) (getNextTransferQueueIndex st) (m_transferQueueSize st))
       \<and> ringOrder (m_transferQueueSize st)
            (getNextTransferQueueIndex (addItemInTransferQueue env renderInfo type bm st))
            (m_transferQueueSize st)
           = rotate 1 (ringOrder (m_transferQueueSize st) (getNextTransferQueueIndex st)
                         (m_transferQueueSize st))"
proof -
  have N: "0 < m_transferQueueSize st" using assms by (simp add: wellFormed_def)
  note bw = beforeWalk_fields [OF assms, of env]
  have walk: "updateDirtyTiles env st
           = updateDirtyTiles_finish env
               (foldl (\<lambda>a i. updateDirtyTiles_body env i a) (False, beforeWalk env st)
                  (map (\<lambda>k. (m_transferQueueIndex st + 1 + k) mod m_transferQueueSize st)
                     [0..<m_transferQueueSize st]))"
    using N
    by (simp add: updateDirtyTiles_beforeWalk ringWalk_fold [OF bw(1)] bw(2) bw(3)
        getNextTransferQueueIndex_def ringOrder_next)
  have idx: "m_transferQueueIndex (addItemInTransferQueue env renderInfo type bm st)
           = hd (ringOrder (m_transferQueueSize st) (getNextTransferQueueIndex st) (m_transferQueueSize st))"
    using N by (simp add: addItemInTransferQueue_def Let_def getNextTransferQueueIndex_def ringOrder_hd)
  have rot: "ringOrder (m_transferQueueSize st)
            (getNextTransferQueueIndex (addItemInTransferQueue env renderInfo type bm st))
            (m_transferQueueSize st)
           = rotate 1 (ringOrder (m_transferQueueSize st) (getNextTransferQueueIndex st)
                         (m_transferQueueSize st))"
    using ringOrder_after_enqueue [OF N, of "m_transferQueueIndex st"]
    by (simp add: addItemInTransferQueue_def Let_def getNextTransferQueueIndex_def)
  show ?thesis
    using beforeWalk_trace [OF assms, of env] beforeWalk_extends [of env st] bw(4)
      walk_extends [OF assms, of env] walk updateDirtyTiles_ring(5) [OF assms, of env] idx rot
    by blast
qed

theorem drain_order_witness:
  "wellFormed (demo_queue [demo_slot pendingBlit CpuUpload 1, demo_slot pendingBlit CpuUpload 2,
                           demo_slot emptyItem GpuUpload 0] 1
                 [demo_slot pendingBlit GpuUpload 3, demo_slot pendingBlit GpuUpload 0,
                  demo_slot pendingBlit GpuUpload 5])
   \<and> events (beforeWalk demo_env
        (demo_queue [demo_slot pendingBlit CpuUpload 1, demo_slot pendingBlit CpuUpload 2,
                     demo_slot emptyItem GpuUpload 0] 1
           [demo_slot pendingBlit GpuUpload 3, demo_slot pendingBlit GpuUpload 0,
            demo_slot pendingBlit GpuUpload 5]))
       = [SetPureColor 103 0, TransferComplete 103, SetPureColor 105 0, TransferComplete 105]
   \<and> events (updateDirtyTiles demo_env
        (demo_queue [demo_slot pendingBlit CpuUpload 1, demo_slot pendingBlit CpuUpload 2,
                     demo_slot emptyItem GpuUpload 0] 1
           [demo_slot pendingBlit GpuUpload 3, demo_slot pendingBlit GpuUpload 0,
            demo_slot pendingBlit GpuUpload 5]))
       = [SetPureColor 103 0, TransferComplete 103, SetPureColor 105 0, TransferComplete 105,
          RequireGLTexture 101, UpdateTextureWithBitmap 101 (Some demo_bitmap) (IntRect 0 0 0 0),
          SetPure 101 False, TransferComplete 101,
          RequireGLTexture 102, UpdateTextureWithBitmap 102 (Some demo_bitmap) (IntRect 0 0 0 0),
          SetPure 102 False, TransferComplete 102,
          CondSignal]
   \<and> m_pureColorTileQueue (updateDirtyTiles demo_env
        (demo_queue [demo_slot pendingBlit CpuUpload 1, demo_slot pendingBlit CpuUpload 2,
                     demo_slot emptyItem GpuUpload 0] 1
           [demo_slot pendingBlit GpuUpload 3, demo_slot pendingBlit GpuUpload 0,
            demo_slot pendingBlit GpuUpload 5])) = []"
proof -
  let ?st = "demo_queue [demo_slot pendingBlit CpuUpload 1, demo_slot pendingBlit CpuUpload 2,
                     demo_slot emptyItem GpuUpload 0] 1
           [demo_slot pendingBlit GpuUpload 3, demo_slot pendingBlit GpuUpload 0,
            demo_slot pendingBlit GpuUpload 5]"
  have w: "wellFormed ?st"
    by (simp add: wellFormed_def demo_queue_def)
  note d = drain_order [OF w, of demo_env "demo_info 4" CpuUpload None]
  have side: "events (beforeWalk demo_env ?st)
           = events (cleanupPendingDiscard demo_env ?st)
             @ fst (sideQueueTrace demo_env (world (cleanupPendingDiscard demo_env ?st))
                      (m_pureColorTileQueue ?st))"
    and walk: "updateDirtyTiles demo_env ?st
           = updateDirtyTiles_finish demo_env
               (foldl (\<lambda>a i. updateDirtyTiles_body demo_env i a) (False, beforeWalk demo_env ?st)
                  (map (\<lambda>k. (m_transferQueueIndex ?st + 1 + k) mod m_transferQueueSize ?st)
                     [0..<m_transferQueueSize ?st]))"
    and empty: "m_pureColorTileQueue (updateDirtyTiles demo_env ?st) = []"
    using d by blast+
  have c: "events (cleanupPendingDiscard demo_env ?st) = []"
    by (simp add: model_defs demo_defs)
  have t: "fst (sideQueueTrace demo_env (world (cleanupPendingDiscard demo_env ?st))
                      (m_pureColorTileQueue ?st))
       = [SetPureColor 103 0, TransferComplete 103, SetPureColor 105 0, TransferComplete 105]"
    by (simp add: demo_defs Let_def)
  have b: "events (beforeWalk demo_env ?st)
       = [SetPureColor 103 0, TransferComplete 103, SetPureColor 105 0, TransferComplete 105]"
    using side c t by simp
  have "events (updateDirtyTiles_finish demo_env
               (foldl (\<lambda>a i. updateDirtyTiles_body demo_env i a) (False, beforeWalk demo_env ?st)
                  (map (\<lambda>k. (m_transferQueueIndex ?st + 1 + k) mod m_transferQueueSize ?st)
                     [0..<m_transferQueueSize ?st])))
       = [SetPureColor 103 0, TransferComplete 103, SetPureColor 105 0, TransferComplete 105,
          RequireGLTexture 101, UpdateTextureWithBitmap 101 (Some demo_bitmap) (IntRect 0 0 0 0),
          SetPure 101 False, TransferComplete 101,
          RequireGLTexture 102, UpdateTextureWithBitmap 102 (Some demo_bitmap) (IntRect 0 0 0 0),
          SetPure 102 False, TransferComplete 102,
          CondSignal]"
    by (simp add: beforeWalk_def model_defs demo_defs)
  with walk empty w b show ?thesis by simp
qed

text \<open>
  C9 as stated fails: a drain cycle starts with \<open>cleanupPendingDiscard\<close>, which examines
  every ring slot and processes the PendingDiscard ones before the side queue is looked
  at. Here the ring holds one PendingDiscard slot and the side queue one entry; the
  calls \<open>updateTexImage\<close> and \<open>discardBackTexture\<close> for the ring slot come before the
  \<open>setPureColor\<close> of the side-queue entry.
\<close>

theorem discards_before_side_queue_counterexample:
  "\<not> sideFirst (events (updateDirtyTiles demo_env
        (demo_queue [demo_slot pendingDiscard GpuUpload 1] 0 [demo_slot pendingBlit GpuUpload 3])))"
  by (simp add: model_defs demo_defs)

section \<open>Two drain cycles in a row\<close>

text \<open>
  C10. When a drain cycle on a well-formed queue is followed at once by a second one, the
  only call the second cycle makes is the signal of the admission condition: no
  \<open>updateTexImage\<close>, no bitmap upload, no blit, no saving or restoring of GL state and no
  \<open>transferComplete\<close>; the ring is left as the first cycle left it.
\<close>

theorem second_drain_idle:
  assumes "wellFormed st"
  shows "events (updateDirtyTiles env (updateDirtyTiles env st))
           = events (updateDirtyTiles env st) @ [CondSignal]
       \<and> m_transferQueue (updateDirtyTiles env (updateDirtyTiles env st))
           = m_transferQueue (updateDirtyTiles env st)"
proof -
  let ?s = "updateDirtyTiles env st"
  have w: "wellFormed ?s" using assms by (rule updateDirtyTiles_wellFormed)
  have e: "\<forall>i < m_transferQueueSize ?s. status (m_transferQueue ?s ! i) = emptyItem"
    using drained_empty [OF assms] by (simp add: updateDirtyTiles_ring [OF assms])
  have p: "m_pureColorTileQueue ?s = []" by (simp add: updateDirtyTiles_ring [OF assms])
  show ?thesis
    using updateDirtyTiles_idle [OF w e p, of env] by (simp add: events_def)
qed

theorem second_drain_idle_witness:
  "wellFormed (demo_queue [demo_slot pendingBlit GpuUpload 1, demo_slot pendingDiscard CpuUpload 2] 1
                 [demo_slot pendingBlit GpuUpload 3])
   \<and> events (updateDirtyTiles demo_env (updateDirtyTiles demo_env
        (demo_queue [demo_slot pendingBlit GpuUpload 1, demo_slot pendingDiscard CpuUpload 2] 1
           [demo_slot pendingBlit GpuUpload 3])))
       = events (updateDirtyTiles demo_env
           (demo_queue [demo_slot pendingBlit GpuUpload 1, demo_slot pendingDiscard CpuUpload 2] 1
              [demo_slot pendingBlit GpuUpload 3])) @ [CondSignal]"
proof -
  let ?st = "demo_queue [demo_slot pendingBlit GpuUpload 1, demo_slot pendingDiscard CpuUpload 2] 1
               [demo_slot pendingBlit GpuUpload 3]"
  have w: "wellFormed ?st"
    by (simp add: wellFormed_def demo_queue_def)
  show ?thesis
    using w second_drain_idle [OF w, of demo_env] by simp
qed

end
